theory Spec2Isabelle
  imports Main
begin

section \<open>Package install verification: \<open>pkg/install.go\<close>\<close>

text \<open>
  The file embeds \<open>Install\<close>, \<open>download\<close>, \<open>verifyManifestIntegrity\<close>,
  \<open>verifyPkgContents\<close>, \<open>tarSlurper\<close> and \<open>getReadCloser\<close> of \<open>pkg/install.go\<close>.
  Errors are values, the file system and the set of open file handles are threaded through
  every operation, and a ghost trace records the calls that the properties count
  (HTTP requests, outcomes of trust verification, entries into content verification,
  SHA-256 computations).
\<close>

subsection \<open>Errors\<close>

datatype error =
    LibErr string                 \<comment> \<open>an error value produced by the OS or a library\<close>
  | ErrTooLong                    \<comment> \<open>\<open>bufio.ErrTooLong\<close>\<close>
  | Wrap error string             \<comment> \<open>\<open>errors.Wrap(err, msg)\<close>\<close>
  | CopyToDisk error string nat   \<comment> \<open>\<open>errors.Wrapf(err, "copy %q to disk after %d bytes", url, n)\<close>\<close>
  | CalcChecksum error nat        \<comment> \<open>\<open>errors.Wrapf(err, "calculating checksum after %v bytes", n)\<close>\<close>
  | NotADirectory string          \<comment> \<open>\<open>errors.Errorf("%q is not a directory!", cacheDir)\<close>\<close>
  | ManifestFormat nat            \<comment> \<open>\<open>errors.Errorf("manifest format error; got %d elements, want 2", n)\<close>\<close>
  | ExtraFile string              \<comment> \<open>\<open>errors.Errorf("extra file %q found in tarfile!", name)\<close>\<close>
  | ChecksumIncorrect string      \<comment> \<open>\<open>errors.Errorf("%q checksum was incorrect", name)\<close>\<close>
  | NotFound string               \<comment> \<open>\<open>errors.Errorf("%q not found", fn)\<close>\<close>
  | NYI                           \<comment> \<open>\<open>errors.New("NYI")\<close>\<close>

subsection \<open>Archives, files and the state\<close>

text \<open>
  A tar archive is seen through \<open>tar.Reader\<close>: a sequence of headers, each with the bytes
  its reader delivers, ended by \<open>io.EOF\<close> or by an error of \<open>tr.Next()\<close>. The reader of
  an entry ends with \<open>io.EOF\<close> (\<open>e_err = None\<close>) or with a read error.
\<close>

record entry =
  hdr_Name :: string
  hdr_IsDir :: bool
  e_data :: string
  e_err :: "error option"

record tarfile =
  entries :: "entry list"
  tail_err :: "error option"

datatype node = Dir | File tarfile

text \<open>Opening a directory succeeds; reading from it fails at the first header.\<close>

definition tar_view :: "node \<Rightarrow> tarfile" where
  "tar_view nd = (case nd of
       File t \<Rightarrow> t
     | Dir \<Rightarrow> \<lparr>entries = [], tail_err = Some (LibErr ''read: is a directory'')\<rparr>)"

datatype event =
    HttpGet string          \<comment> \<open>\<open>http.Get(url)\<close> was called\<close>
  | TrustOk string          \<comment> \<open>\<open>verifyManifestIntegrity\<close> returned nil for the package\<close>
  | TrustFailed string      \<comment> \<open>\<open>verifyManifestIntegrity\<close> returned an error for the package\<close>
  | ContentStart string     \<comment> \<open>\<open>verifyPkgContents\<close> was entered for the package\<close>
  | Sha256 string string    \<comment> \<open>\<open>sha256.New()\<close> for an entry of the package's archive\<close>

record state =
  files :: "string \<rightharpoonup> node"
  handles :: "string list"     \<comment> \<open>open \<open>*os.File\<close> handles, by path, not yet closed\<close>
  trace :: "event list"

definition emit :: "event \<Rightarrow> state \<Rightarrow> state" where
  "emit ev st = st\<lparr>trace := trace st @ [ev]\<rparr>"

subsection \<open>External collaborators\<close>

text \<open>
  Modelled from the spec: \<open>pm.Meta\<close> is declared outside \<open>install.go\<close>. It is the
  spec's PackageMeta, of which the pipeline reads the package identifier \<open>m.Pkg()\<close> and
  the source \<open>m.URL()\<close>.
\<close>

record meta =
  Pkg :: string
  URL :: string

record response =
  StatusCode :: nat
  Body :: tarfile
  Body_Close_err :: "error option"

text \<open>
  The outcome of \<open>io.Copy(f, resp.Body)\<close>: the whole body reaches the file, or the copy
  stops with an error (a failed read from the network or a failed write to disk) after
  \<open>n\<close> bytes, leaving a partial file.
\<close>

datatype copied = Copied | CopyFailed error nat tarfile

type_synonym stream = "string \<times> error option"

text \<open>
  Everything \<open>install.go\<close> calls and does not define, as parameters: the catalogue
  (\<open>db.LoadAvailable\<close>, \<open>Installable\<close>), \<open>filepath.Join\<close>, the directory a path lies
  in (\<open>Parent\<close>), the failures of
  \<open>os.MkdirAll\<close>, \<open>os.Create\<close> and \<open>Close\<close>, \<open>http.Get\<close>, \<open>io.Copy\<close> to disk,
  \<open>keyring.Verify\<close> and the lower-case hex SHA-256 digest.
\<close>

record env =
  LoadAvailable :: "string \<Rightarrow> error + (string list \<Rightarrow> error + meta list)"
  Join :: "string list \<Rightarrow> string"
  Parent :: "string \<Rightarrow> string"
  MkdirAll_err :: "string \<Rightarrow> error option"
  Create_err :: "string \<Rightarrow> error option"
  Close_err :: "string \<Rightarrow> error option"
  http_Get :: "string \<Rightarrow> error + response"
  io_Copy :: "string \<Rightarrow> response \<Rightarrow> copied"
  keyring_Verify :: "string \<Rightarrow> stream \<Rightarrow> stream \<Rightarrow> error option"
  sha256_hex :: "string \<Rightarrow> string"

definition cache :: string where
  "cache = ''var/cache/pm''"

subsection \<open>File operations\<close>

definition os_Open :: "string \<Rightarrow> state \<Rightarrow> (error + node) \<times> state" where
  "os_Open p st = (case files st p of
       None \<Rightarrow> (Inl (LibErr ''open: no such file or directory''), st)
     | Some nd \<Rightarrow> (Inr nd, st\<lparr>handles := handles st @ [p]\<rparr>))"

definition os_Close :: "env \<Rightarrow> string \<Rightarrow> state \<Rightarrow> error option \<times> state" where
  "os_Close ev p st = (Close_err ev p, st\<lparr>handles := remove1 p (handles st)\<rparr>)"

text \<open>
  \<open>os.Create\<close> fails when the directory the path lies in is not there (or is no
  directory), when the path is a directory, and when the system refuses for another
  reason; otherwise the file is there, empty, and open.
\<close>

definition os_Create :: "env \<Rightarrow> string \<Rightarrow> state \<Rightarrow> error option \<times> state" where
  "os_Create ev p st =
     (if files st (Parent ev p) \<noteq> Some Dir
      then (Some (LibErr ''open: no such file or directory''), st)
      else if files st p = Some Dir then (Some (LibErr ''open: is a directory''), st)
      else case Create_err ev p of
          Some err \<Rightarrow> (Some err, st)
        | None \<Rightarrow> (None, st\<lparr>files := (files st)(p \<mapsto> File \<lparr>entries = [], tail_err = None\<rparr>),
                           handles := handles st @ [p]\<rparr>))"

text \<open>\<open>os.MkdirAll\<close> makes the directory; the parents it makes on the way are directories
  as well and are left out of the model.\<close>

definition os_MkdirAll :: "env \<Rightarrow> string \<Rightarrow> state \<Rightarrow> error option \<times> state" where
  "os_MkdirAll ev p st = (case MkdirAll_err ev p of
       Some err \<Rightarrow> (Some err, st)
     | None \<Rightarrow> (None, st\<lparr>files := (files st)(p \<mapsto> Dir)\<rparr>))"

subsection \<open>\<open>tarSlurper\<close> and \<open>getReadCloser\<close>\<close>

record tarSlurper =
  ts_f :: string       \<comment> \<open>the open archive file\<close>
  ts_tr :: entry       \<comment> \<open>the entry the tar reader is positioned at\<close>

definition ts_Close :: "env \<Rightarrow> tarSlurper \<Rightarrow> state \<Rightarrow> error option \<times> state" where
  "ts_Close ev ts st = os_Close ev (ts_f ts) st"

definition ts_Read :: "tarSlurper \<Rightarrow> stream" where
  "ts_Read ts = (e_data (ts_tr ts), e_err (ts_tr ts))"

text \<open>The loop of \<open>getReadCloser\<close> over the headers: the first entry named \<open>fn\<close> wins.\<close>

fun seek :: "string \<Rightarrow> entry list \<Rightarrow> error option \<Rightarrow> error + entry" where
  "seek fn [] tl_err = (case tl_err of
       None \<Rightarrow> Inl (NotFound fn)
     | Some err \<Rightarrow> Inl (Wrap err ''tar traversal''))"
| "seek fn (hdr # rest) tl_err =
     (if hdr_Name hdr = fn then Inr hdr else seek fn rest tl_err)"

definition getReadCloser :: "string \<Rightarrow> string \<Rightarrow> state \<Rightarrow> (error + tarSlurper) \<times> state" where
  "getReadCloser tn fn st = (case os_Open tn st of
       (Inl err, st1) \<Rightarrow> (Inl (Wrap err ''opening pkg file''), st1)
     | (Inr pf, st1) \<Rightarrow>
         (case seek fn (entries (tar_view pf)) (tail_err (tar_view pf)) of
            Inl err \<Rightarrow> (Inl err, st1)
          | Inr hdr \<Rightarrow> (Inr \<lparr>ts_f = tn, ts_tr = hdr\<rparr>, st1)))"

subsection \<open>\<open>verifyManifestIntegrity\<close>\<close>

definition verifyManifestIntegrity :: "env \<Rightarrow> string \<Rightarrow> meta \<Rightarrow> state \<Rightarrow> error option \<times> state" where
  "verifyManifestIntegrity ev root m st =
     (let pn = Join ev [root, cache, Pkg m] in
      case getReadCloser pn ''manifest.sha256'' st of
        (Inl err, st1) \<Rightarrow> (Some (Wrap err ''getting manifest reader''), st1)
      | (Inr man, st1) \<Rightarrow>
     (case getReadCloser pn ''manifest.sha256.asc'' st1 of
        (Inl err, st2) \<Rightarrow> (Some (Wrap err ''getting manifest reader''), st2)
      | (Inr sig, st2) \<Rightarrow>
     (case keyring_Verify ev root (ts_Read man) (ts_Read sig) of
        Some err \<Rightarrow> (Some (Wrap err ''verifying manifest''), st2)
      | None \<Rightarrow>
     (case ts_Close ev man st2 of
        (Some err, st3) \<Rightarrow> (Some (Wrap err ''closing manifest reader''), st3)
      | (None, st3) \<Rightarrow>
     (case ts_Close ev sig st3 of
        (Some err, st4) \<Rightarrow> (Some (Wrap err ''closing manifest signature reader''), st4)
      | (None, st4) \<Rightarrow> (None, st4))))))"

subsection \<open>The manifest: \<open>bufio.Scanner\<close> lines and \<open>strings.Split\<close>\<close>

definition MaxScanTokenSize :: nat where
  "MaxScanTokenSize = 64 * 1024"

definition dropCR :: "string \<Rightarrow> string" where
  "dropCR d = (if d \<noteq> [] \<and> last d = CHR 0x0D then butlast d else d)"

text \<open>
  The tokens \<open>s.Scan()\<close> delivers with the default split function \<open>bufio.ScanLines\<close>, and
  the error that stops it: no token for empty remaining data, a line up to the next
  newline without its optional carriage return, the final line also when it has no
  newline. The buffer grows to \<open>MaxScanTokenSize\<close> bytes at most: a line of that many
  bytes or more stops the scan with \<open>ErrTooLong\<close>, the lines before it having been
  delivered.
\<close>

function ScanLines :: "string \<Rightarrow> string list \<times> error option" where
  "ScanLines d =
     (if d = [] then ([], None)
      else let line = takeWhile (\<lambda>c. c \<noteq> CHR 0x0A) d;
               rest = dropWhile (\<lambda>c. c \<noteq> CHR 0x0A) d
           in if MaxScanTokenSize \<le> length line then ([], Some ErrTooLong)
              else if rest = [] then ([dropCR line], None)
              else (case ScanLines (tl rest) of (ts, err) \<Rightarrow> (dropCR line # ts, err)))"
  by pat_completeness auto
termination
proof (relation "measure length", goal_cases)
  case 1
  show ?case by simp
next
  case (2 d line rest)
  have le: "length rest \<le> length d"
    unfolding 2 by (rule length_dropWhile_le)
  from 2 have "0 < length rest" by simp
  then have "length (tl rest) < length rest" by simp
  with le show ?case by simp
qed

declare ScanLines.simps [simp del]

text \<open>
  The scanner over a reader: after the data, a read error other than \<open>io.EOF\<close> is what
  \<open>s.Err()\<close> reports, unless the scan already stopped with \<open>ErrTooLong\<close>.
\<close>

definition Scanner :: "stream \<Rightarrow> string list \<times> error option" where
  "Scanner r = (case ScanLines (fst r) of
       (ts, Some err) \<Rightarrow> (ts, Some err)
     | (ts, None) \<Rightarrow> (ts, snd r))"

text \<open>\<open>strings.Split(s, sep)\<close> for a one-byte separator: one more piece than separators.\<close>

fun Split :: "string \<Rightarrow> char \<Rightarrow> string list" where
  "Split [] sep = [Nil]"
| "Split (c # cs) sep =
     (if c = sep then [] # Split cs sep
      else (case Split cs sep of
              [] \<Rightarrow> [c # Nil]
            | x # xs \<Rightarrow> (c # x) # xs))"

text \<open>The loop \<open>for s.Scan() { ... }\<close> of \<open>verifyPkgContents\<close> over the scanned lines.\<close>

fun manifest_lines :: "string list \<Rightarrow> (string \<rightharpoonup> string) \<Rightarrow> error + (string \<rightharpoonup> string)" where
  "manifest_lines [] cs = Inr cs"
| "manifest_lines (t # ts) cs =
     (let elems = Split t (CHR 0x09) in
      if length elems \<noteq> 2 then Inl (ManifestFormat (length elems))
      else manifest_lines ts (cs(elems ! 1 \<mapsto> elems ! 0)))"

subsection \<open>\<open>verifyPkgContents\<close>\<close>

text \<open>The loop over the archive's headers; \<open>p\<close> is the package, for the trace only.\<close>

fun check_entries ::
  "env \<Rightarrow> string \<Rightarrow> (string \<rightharpoonup> string) \<Rightarrow> entry list \<Rightarrow> error option \<Rightarrow> state
   \<Rightarrow> error option \<times> state" where
  "check_entries ev p cs [] tl_err st = (case tl_err of
       None \<Rightarrow> (None, st)
     | Some err \<Rightarrow> (Some (Wrap err ''tar traversal''), st))"
| "check_entries ev p cs (hdr # rest) tl_err st =
     (if hdr_Name hdr = ''manifest.sha256'' \<or> hdr_Name hdr = ''manifest.sha256.asc''
      then check_entries ev p cs rest tl_err st
      else if hdr_IsDir hdr then check_entries ev p cs rest tl_err st
      else case cs (hdr_Name hdr) of
          None \<Rightarrow> (Some (ExtraFile (hdr_Name hdr)), st)
        | Some sha \<Rightarrow>
            (let st1 = emit (Sha256 p (hdr_Name hdr)) st in
             case e_err hdr of
               Some err \<Rightarrow> (Some (CalcChecksum err (length (e_data hdr))), st1)
             | None \<Rightarrow>
                 if sha \<noteq> sha256_hex ev (e_data hdr)
                 then (Some (ChecksumIncorrect (hdr_Name hdr)), st1)
                 else check_entries ev p cs rest tl_err st1))"

text \<open>
  Lines 111 to 130 of \<open>verifyPkgContents\<close>: the manifest reader, the scan of its lines
  into the map \<open>cs\<close> from path to digest, the close of the reader and the check of
  \<open>s.Err()\<close>. A line with the wrong number of fields returns at once, before the close.
\<close>

definition load_manifest ::
  "env \<Rightarrow> string \<Rightarrow> state \<Rightarrow> (error + (string \<rightharpoonup> string)) \<times> state" where
  "load_manifest ev pn st =
     (case getReadCloser pn ''manifest.sha256'' st of
        (Inl err, st1) \<Rightarrow> (Inl (Wrap err ''getting manifest reader''), st1)
      | (Inr man, st1) \<Rightarrow>
     (case Scanner (ts_Read man) of (lines, s_Err) \<Rightarrow>
     (case manifest_lines lines Map.empty of
        Inl err \<Rightarrow> (Inl err, st1)
      | Inr cs \<Rightarrow>
     (case ts_Close ev man st1 of
        (Some err, st2) \<Rightarrow> (Inl (Wrap err ''closing manifest reader''), st2)
      | (None, st2) \<Rightarrow>
     (case s_Err of
        Some err \<Rightarrow> (Inl (Wrap err ''scanning manifest''), st2)
      | None \<Rightarrow> (Inr cs, st2))))))"

text \<open>
  \<open>verifyPkgContents\<close>: the manifest, then lines 132 to 165, the traversal of the
  archive. The file opened for the traversal is not closed by the source.
\<close>

definition verifyPkgContents :: "env \<Rightarrow> string \<Rightarrow> meta \<Rightarrow> state \<Rightarrow> error option \<times> state" where
  "verifyPkgContents ev root m st =
     (let pn = Join ev [root, cache, Pkg m] in
      case load_manifest ev pn (emit (ContentStart (Pkg m)) st) of
        (Inl err, st2) \<Rightarrow> (Some err, st2)
      | (Inr cs, st2) \<Rightarrow>
     (case os_Open pn st2 of
        (Inl err, st3) \<Rightarrow> (Some (Wrap err ''opening pkg file''), st3)
      | (Inr pf, st3) \<Rightarrow>
          check_entries ev (Pkg m) cs (entries (tar_view pf)) (tail_err (tar_view pf)) st3))"

subsection \<open>\<open>download\<close>\<close>

fun download :: "env \<Rightarrow> string \<Rightarrow> meta list \<Rightarrow> state \<Rightarrow> error option \<times> state" where
  "download ev cdir [] st = (None, st)"
| "download ev cdir (m # ms) st =
     (let st0 = emit (HttpGet (URL m)) st in
      case http_Get ev (URL m) of
        Inl err \<Rightarrow> (Some (Wrap err ''http get''), st0)
      | Inr resp \<Rightarrow>
     (let fn = Join ev [cdir, Pkg m] in
      case os_Create ev fn st0 of
        (Some err, st1) \<Rightarrow> (Some (Wrap err ''creating''), st1)
      | (None, st1) \<Rightarrow>
     (case io_Copy ev fn resp of
        CopyFailed err n part \<Rightarrow>
          (Some (CopyToDisk err (URL m) n), st1\<lparr>files := (files st1)(fn \<mapsto> File part)\<rparr>)
      | Copied \<Rightarrow>
     (let st2 = st1\<lparr>files := (files st1)(fn \<mapsto> File (Body resp))\<rparr> in
      case Body_Close_err resp of
        Some err \<Rightarrow> (Some (Wrap err ''closing resp body''), st2)
      | None \<Rightarrow> download ev cdir ms st2))))"

subsection \<open>\<open>Install\<close>\<close>

text \<open>The loop \<open>for _, m := range ms\<close> of \<open>Install\<close>, with the outcome of trust
  verification recorded in the trace.\<close>

fun verify_each :: "env \<Rightarrow> string \<Rightarrow> meta list \<Rightarrow> state \<Rightarrow> error option \<times> state" where
  "verify_each ev root [] st = (None, st)"
| "verify_each ev root (m # ms) st =
     (case verifyManifestIntegrity ev root m st of
        (Some err, st1) \<Rightarrow>
          (Some (Wrap err ''verifying pkg integrity''), emit (TrustFailed (Pkg m)) st1)
      | (None, st1) \<Rightarrow>
     (case verifyPkgContents ev root m (emit (TrustOk (Pkg m)) st1) of
        (Some err, st2) \<Rightarrow> (Some (Wrap err ''verifying pkg contents''), st2)
      | (None, st2) \<Rightarrow> verify_each ev root ms st2))"

definition Install :: "env \<Rightarrow> string \<Rightarrow> string list \<Rightarrow> state \<Rightarrow> error option \<times> state" where
  "Install ev root pkgs st =
     (case LoadAvailable ev root of
        Inl err \<Rightarrow> (Some (Wrap err ''loading available db''), st)
      | Inr av \<Rightarrow>
     (case av pkgs of
        Inl err \<Rightarrow> (Some (Wrap err ''checking ability to install''), st)
      | Inr ms \<Rightarrow>
     (let cacheDir = Join ev [root, cache] in
      case (if files st cacheDir = None then os_MkdirAll ev cacheDir st else (None, st)) of
        (Some err, st1) \<Rightarrow> (Some (Wrap err ''creating non-existent cache dir''), st1)
      | (None, st1) \<Rightarrow>
          if files st1 cacheDir \<noteq> Some Dir then (Some (NotADirectory cacheDir), st1)
          else
     (case download ev cacheDir ms st1 of
        (Some err, st2) \<Rightarrow> (Some (Wrap err ''downloading''), st2)
      | (None, st2) \<Rightarrow>
     (case verify_each ev root ms st2 of
        (Some err, st3) \<Rightarrow> (Some err, st3)
      | (None, st3) \<Rightarrow> (Some NYI, st3))))))"


section \<open>Notions used by the properties\<close>

text \<open>A content entry is one the traversal does not skip: not a control entry, not a
  directory.\<close>

definition is_content :: "entry \<Rightarrow> bool" where
  "is_content hdr =
     (hdr_Name hdr \<noteq> ''manifest.sha256'' \<and> hdr_Name hdr \<noteq> ''manifest.sha256.asc''
      \<and> \<not> hdr_IsDir hdr)"

text \<open>An entry passes when the traversal goes on after it: it is skipped, or it is
  declared, readable to its end and of the declared digest.\<close>

definition passes :: "env \<Rightarrow> (string \<rightharpoonup> string) \<Rightarrow> entry \<Rightarrow> bool" where
  "passes ev cs hdr =
     (if is_content hdr
      then e_err hdr = None \<and> cs (hdr_Name hdr) = Some (sha256_hex ev (e_data hdr))
      else True)"

text \<open>The names of the entries whose digest the traversal computes.\<close>

definition digested :: "entry list \<Rightarrow> string list" where
  "digested es = map hdr_Name (filter is_content es)"

definition two_fields :: "string \<Rightarrow> bool" where
  "two_fields t = (length (Split t (CHR 0x09)) = 2)"

definition line_digest :: "string \<Rightarrow> string" where
  "line_digest t = Split t (CHR 0x09) ! 0"

definition line_path :: "string \<Rightarrow> string" where
  "line_path t = Split t (CHR 0x09) ! 1"

text \<open>In a trace, every entry into content verification and every digest computation of
  a package comes after a successful trust verification of that package (\<open>seen\<close>: the
  packages already verified).\<close>

fun trust_before :: "string set \<Rightarrow> event list \<Rightarrow> bool" where
  "trust_before seen [] = True"
| "trust_before seen (TrustOk p # tr) = trust_before (insert p seen) tr"
| "trust_before seen (ContentStart p # tr) = (p \<in> seen \<and> trust_before seen tr)"
| "trust_before seen (Sha256 p n # tr) = (p \<in> seen \<and> trust_before seen tr)"
| "trust_before seen (_ # tr) = trust_before seen tr"

text \<open>Trust verification of package \<open>p\<close> succeeds on the files \<open>F\<close>.\<close>

definition trusted :: "env \<Rightarrow> string \<Rightarrow> (string \<rightharpoonup> node) \<Rightarrow> string \<Rightarrow> bool" where
  "trusted ev root F p =
     (fst (verifyManifestIntegrity ev root \<lparr>Pkg = p, URL = []\<rparr>
             \<lparr>files = F, handles = [], trace = []\<rparr>) = None)"

text \<open>
  A valid package in the cache: the archive is a file that ends with \<open>io.EOF\<close> and closes
  without error, its manifest and signature entries exist and the keyring accepts them,
  the manifest scans and parses, and every content entry passes against it.
\<close>

definition valid_pkg :: "env \<Rightarrow> string \<Rightarrow> (string \<rightharpoonup> node) \<Rightarrow> meta \<Rightarrow> bool" where
  "valid_pkg ev root F m =
     (let pn = Join ev [root, cache, Pkg m] in
      case F pn of
        None \<Rightarrow> False
      | Some pf \<Rightarrow>
          tail_err (tar_view pf) = None \<and> Close_err ev pn = None \<and>
          (case (seek ''manifest.sha256'' (entries (tar_view pf)) None,
                 seek ''manifest.sha256.asc'' (entries (tar_view pf)) None) of
             (Inr man, Inr sig) \<Rightarrow>
               keyring_Verify ev root (e_data man, e_err man) (e_data sig, e_err sig) = None \<and>
               (case Scanner (e_data man, e_err man) of
                  (lines, Some err) \<Rightarrow> False
                | (lines, None) \<Rightarrow>
                    (case manifest_lines lines Map.empty of
                       Inl err \<Rightarrow> False
                     | Inr cs \<Rightarrow> list_all (passes ev cs) (entries (tar_view pf))))
           | _ \<Rightarrow> False))"

text \<open>
  A package assembled the intended way, from files \<open>fs\<close> (path and content): the manifest
  has one line \<open><digest> TAB <path> NL\<close> for each file, the archive holds the manifest, a
  signature \<open>sg\<close> and the files.
\<close>

definition manifest_line :: "env \<Rightarrow> string \<times> string \<Rightarrow> string" where
  "manifest_line ev f = sha256_hex ev (snd f) @ CHR 0x09 # fst f"

definition serialize :: "env \<Rightarrow> (string \<times> string) list \<Rightarrow> string" where
  "serialize ev fs = concat (map (\<lambda>f. manifest_line ev f @ [CHR 0x0A]) fs)"

definition assemble :: "env \<Rightarrow> (string \<times> string) list \<Rightarrow> string \<Rightarrow> tarfile" where
  "assemble ev fs sg = \<lparr>entries =
       \<lparr>hdr_Name = ''manifest.sha256'', hdr_IsDir = False, e_data = serialize ev fs, e_err = None\<rparr>
     # \<lparr>hdr_Name = ''manifest.sha256.asc'', hdr_IsDir = False, e_data = sg, e_err = None\<rparr>
     # map (\<lambda>f. \<lparr>hdr_Name = fst f, hdr_IsDir = False, e_data = snd f, e_err = None\<rparr>) fs,
     tail_err = None\<rparr>"

text \<open>
  What the line format needs of a file: no tab or newline in its path or in its digest, no
  carriage return at the end of its path, a path that is not a control name, and a line
  that fits the scanner's buffer.
\<close>

definition fits_line :: "env \<Rightarrow> string \<times> string \<Rightarrow> bool" where
  "fits_line ev f =
     (CHR 0x09 \<notin> set (fst f) \<and> CHR 0x0A \<notin> set (fst f) \<and>
      CHR 0x09 \<notin> set (sha256_hex ev (snd f)) \<and> CHR 0x0A \<notin> set (sha256_hex ev (snd f)) \<and>
      (if fst f = [] then True else last (fst f) \<noteq> CHR 0x0D) \<and>
      fst f \<noteq> ''manifest.sha256'' \<and> fst f \<noteq> ''manifest.sha256.asc'' \<and>
      length (manifest_line ev f) < MaxScanTokenSize)"

section \<open>A concrete repository\<close>

text \<open>
  Three packages served over HTTP: \<open>good\<close> (signed manifest, matching content),
  \<open>bad\<close> (the signature is not over the manifest) and \<open>gone\<close> (the server answers 404
  with a body that is not an archive). The digest function of the example is a stand-in:
  the theorems hold for every digest function. Paths are joined with a slash, empty
  elements left out, and the directory of a path is what precedes its last slash; the
  examples use clean relative paths only.
\<close>

definition slash_join :: "string list \<Rightarrow> string" where
  "slash_join xs =
     foldr (\<lambda>x acc. if acc = [] then x else x @ ''/'' @ acc) (filter (\<lambda>x. x \<noteq> []) xs) []"

definition dirname :: "string \<Rightarrow> string" where
  "dirname p = rev (drop 1 (dropWhile (\<lambda>c. c \<noteq> CHR ''/'') (rev p)))"

definition ex_manifest :: string where
  "ex_manifest = ''sha:hello'' @ [CHR 0x09] @ ''bin/foo'' @ [CHR 0x0A]"

definition ex_file :: "string \<Rightarrow> string \<Rightarrow> entry" where
  "ex_file n d = \<lparr>hdr_Name = n, hdr_IsDir = False, e_data = d, e_err = None\<rparr>"

definition good_tar :: tarfile where
  "good_tar = \<lparr>entries =
       [ex_file ''manifest.sha256'' ex_manifest,
        ex_file ''manifest.sha256.asc'' (''signed:'' @ ex_manifest),
        \<lparr>hdr_Name = ''bin/'', hdr_IsDir = True, e_data = [], e_err = None\<rparr>,
        ex_file ''bin/foo'' ''hello''],
     tail_err = None\<rparr>"

definition bad_tar :: tarfile where
  "bad_tar = \<lparr>entries =
       [ex_file ''manifest.sha256'' ex_manifest,
        ex_file ''manifest.sha256.asc'' ''signed:other'',
        ex_file ''bin/foo'' ''hello''],
     tail_err = None\<rparr>"

definition gone_body :: tarfile where
  "gone_body = \<lparr>entries = [], tail_err = Some (LibErr ''archive/tar: invalid tar header'')\<rparr>"

definition ex_env :: env where
  "ex_env = \<lparr>
     LoadAvailable = (\<lambda>root. Inr (\<lambda>names.
        Inr (map (\<lambda>n. \<lparr>Pkg = n, URL = ''http://repo/'' @ n\<rparr>) names))),
     Join = slash_join,
     Parent = dirname,
     MkdirAll_err = (\<lambda>p. None),
     Create_err = (\<lambda>p. None),
     Close_err = (\<lambda>p. None),
     http_Get = (\<lambda>u.
        if u = ''http://repo/good''
        then Inr \<lparr>StatusCode = 200, Body = good_tar, Body_Close_err = None\<rparr>
        else if u = ''http://repo/bad''
        then Inr \<lparr>StatusCode = 200, Body = bad_tar, Body_Close_err = None\<rparr>
        else if u = ''http://repo/gone''
        then Inr \<lparr>StatusCode = 404, Body = gone_body, Body_Close_err = None\<rparr>
        else Inl (LibErr ''dial tcp: no such host'')),
     io_Copy = (\<lambda>fn resp. Copied),
     keyring_Verify = (\<lambda>root man sig.
        if snd man = None \<and> snd sig = None \<and> fst sig = ''signed:'' @ fst man
        then None else Some (LibErr ''signature does not verify'')),
     sha256_hex = (\<lambda>d. ''sha:'' @ d)\<rparr>"

definition ex_st :: state where
  "ex_st = \<lparr>files = Map.empty, handles = [], trace = []\<rparr>"

text \<open>The state in which \<open>Install\<close> calls \<open>download\<close>: the cache directory is there.\<close>

definition ex_cache_st :: state where
  "ex_cache_st = \<lparr>files = [''r/var/cache/pm'' \<mapsto> Dir], handles = [], trace = []\<rparr>"

text \<open>A cache that holds one archive \<open>t\<close> for the package \<open>pkg\<close> under the root \<open>r\<close>.\<close>

definition cached :: "tarfile \<Rightarrow> state" where
  "cached t = \<lparr>files = [''r/var/cache/pm/pkg'' \<mapsto> File t], handles = [], trace = []\<rparr>"

definition ex_pkg :: meta where
  "ex_pkg = \<lparr>Pkg = ''pkg'', URL = ''http://repo/pkg''\<rparr>"

definition extra_tar :: tarfile where
  "extra_tar = \<lparr>entries = entries good_tar @ [ex_file ''bin/bar'' ''extra''], tail_err = None\<rparr>"

definition tampered_tar :: tarfile where
  "tampered_tar = \<lparr>entries =
       [ex_file ''manifest.sha256'' ex_manifest,
        ex_file ''manifest.sha256.asc'' (''signed:'' @ ex_manifest),
        ex_file ''bin/foo'' ''hellp''],
     tail_err = None\<rparr>"

definition ex_manifest2 :: string where
  "ex_manifest2 = ''sha:hello'' @ [CHR 0x09] @ ''bin/foo'' @ [CHR 0x0A]
                @ ''sha:world'' @ [CHR 0x09] @ ''lib/bar'' @ [CHR 0x0A]"

definition short_tar :: tarfile where
  "short_tar = \<lparr>entries =
       [ex_file ''manifest.sha256'' ex_manifest2,
        ex_file ''manifest.sha256.asc'' (''signed:'' @ ex_manifest2),
        ex_file ''bin/foo'' ''hello''],
     tail_err = None\<rparr>"

definition dup_manifest :: string where
  "dup_manifest = ''sha:old'' @ [CHR 0x09] @ ''bin/foo'' @ [CHR 0x0A]
                @ ''sha:hello'' @ [CHR 0x09] @ ''bin/foo'' @ [CHR 0x0A]"

definition dup_tar :: tarfile where
  "dup_tar = \<lparr>entries =
       [ex_file ''manifest.sha256'' dup_manifest,
        ex_file ''manifest.sha256.asc'' (''signed:'' @ dup_manifest),
        ex_file ''bin/foo'' ''hello''],
     tail_err = None\<rparr>"

definition blank_tar :: tarfile where
  "blank_tar = \<lparr>entries =
       [ex_file ''manifest.sha256'' (ex_manifest @ [CHR 0x0A]),
        ex_file ''manifest.sha256.asc'' (''signed:'' @ ex_manifest @ [CHR 0x0A]),
        ex_file ''bin/foo'' ''hello''],
     tail_err = None\<rparr>"

definition nosig_tar :: tarfile where
  "nosig_tar = \<lparr>entries =
       [ex_file ''manifest.sha256'' ex_manifest, ex_file ''bin/foo'' ''hello''],
     tail_err = None\<rparr>"

section \<open>Frame properties: what each operation leaves unchanged\<close>

lemmas model_defs =
  Install_def verifyPkgContents_def load_manifest_def verifyManifestIntegrity_def
  getReadCloser_def ts_Close_def ts_Read_def os_Open_def os_Close_def os_Create_def
  os_MkdirAll_def tar_view_def emit_def Scanner_def ScanLines.simps dropCR_def
  MaxScanTokenSize_def cache_def Let_def

lemmas example_defs =
  ex_env_def ex_st_def ex_cache_st_def cached_def ex_pkg_def good_tar_def bad_tar_def gone_body_def
  ex_manifest_def ex_file_def slash_join_def dirname_def
  extra_tar_def tampered_tar_def ex_manifest2_def short_tar_def
  dup_manifest_def dup_tar_def blank_tar_def nosig_tar_def

lemma emit_files [simp]: "files (emit e st) = files st"
  by (simp add: emit_def)

lemma emit_handles [simp]: "handles (emit e st) = handles st"
  by (simp add: emit_def)

lemma emit_trace [simp]: "trace (emit e st) = trace st @ [e]"
  by (simp add: emit_def)

lemma os_Open_eqD:
  "os_Open p st = (r, st1) \<Longrightarrow>
     files st1 = files st \<and> trace st1 = trace st \<and>
     (case files st p of None \<Rightarrow> Inl (LibErr ''open: no such file or directory'')
      | Some nd \<Rightarrow> Inr nd) = r"
  by (auto simp: os_Open_def split: option.splits)

lemma ts_Close_eqD:
  "ts_Close ev ts st = (r, st1) \<Longrightarrow>
     files st1 = files st \<and> trace st1 = trace st \<and> Close_err ev (ts_f ts) = r"
  by (auto simp: ts_Close_def os_Close_def)

lemma getReadCloser_frame:
  "getReadCloser tn fn st = (r, st1) \<Longrightarrow> files st1 = files st \<and> trace st1 = trace st"
  by (auto simp: getReadCloser_def split: prod.splits sum.splits dest!: os_Open_eqD)

lemma getReadCloser_result:
  "files st = files st' \<Longrightarrow> fst (getReadCloser tn fn st) = fst (getReadCloser tn fn st')"
  by (simp add: getReadCloser_def os_Open_def split: option.splits sum.splits)

lemma vmi_frame:
  "verifyManifestIntegrity ev root m st = (r, st1) \<Longrightarrow>
     files st1 = files st \<and> trace st1 = trace st"
  unfolding verifyManifestIntegrity_def Let_def
  by (auto split: prod.splits sum.splits option.splits
      dest!: getReadCloser_frame ts_Close_eqD)

text \<open>The outcome of trust verification depends on the package identifier and the files
  only.\<close>

lemma vmi_result:
  assumes "files st = files st'" and "Pkg m = Pkg m'"
  shows "fst (verifyManifestIntegrity ev root m st) = fst (verifyManifestIntegrity ev root m' st')"
proof -
  let ?pn = "Join ev [root, cache, Pkg m]"
  obtain r1 s1 where g1: "getReadCloser ?pn ''manifest.sha256'' st = (r1, s1)"
    by (cases "getReadCloser ?pn ''manifest.sha256'' st")
  obtain r1' s1' where g1': "getReadCloser ?pn ''manifest.sha256'' st' = (r1', s1')"
    by (cases "getReadCloser ?pn ''manifest.sha256'' st'")
  have r1: "r1' = r1"
    using getReadCloser_result [OF assms(1), of ?pn "''manifest.sha256''"] g1 g1' by simp
  have f1: "files s1 = files s1'"
    using getReadCloser_frame [OF g1] getReadCloser_frame [OF g1'] assms(1) by simp
  obtain r2 s2 where g2: "getReadCloser ?pn ''manifest.sha256.asc'' s1 = (r2, s2)"
    by (cases "getReadCloser ?pn ''manifest.sha256.asc'' s1")
  obtain r2' s2' where g2': "getReadCloser ?pn ''manifest.sha256.asc'' s1' = (r2', s2')"
    by (cases "getReadCloser ?pn ''manifest.sha256.asc'' s1'")
  have r2: "r2' = r2"
    using getReadCloser_result [OF f1, of ?pn "''manifest.sha256.asc''"] g2 g2' by simp
  show ?thesis
    unfolding verifyManifestIntegrity_def Let_def assms(2) [symmetric] g1 g1' r1
    by (auto simp: g2 g2' r2 split: prod.splits sum.splits option.splits dest!: ts_Close_eqD)
qed

lemma vmi_trusted:
  "(fst (verifyManifestIntegrity ev root m st) = None) = trusted ev root (files st) (Pkg m)"
  unfolding trusted_def
  by (subst vmi_result [of st "\<lparr>files = files st, handles = [], trace = []\<rparr>" m
        "\<lparr>Pkg = Pkg m, URL = []\<rparr>"]) simp_all

lemma check_entries_frame:
  "check_entries ev p cs es tl_err st = (r, st1) \<Longrightarrow>
     files st1 = files st \<and> (\<exists>ns. trace st1 = trace st @ map (Sha256 p) ns)"
proof (induction es arbitrary: st)
  case Nil
  then show ?case by (auto split: option.splits)
next
  case (Cons hdr rest)
  show ?case
  proof (cases "hdr_Name hdr = ''manifest.sha256'' \<or> hdr_Name hdr = ''manifest.sha256.asc''
                \<or> hdr_IsDir hdr")
    case True
    with Cons.prems have "check_entries ev p cs rest tl_err st = (r, st1)"
      by (auto split: if_splits)
    then show ?thesis by (rule Cons.IH)
  next
    case False
    show ?thesis
    proof (cases "cs (hdr_Name hdr)")
      case None
      with False Cons.prems show ?thesis by auto
    next
      case (Some sha)
      let ?s = "emit (Sha256 p (hdr_Name hdr)) st"
      have one: "trace ?s = trace st @ map (Sha256 p) [hdr_Name hdr]" by simp
      show ?thesis
      proof (cases "e_err hdr = None \<and> sha = sha256_hex ev (e_data hdr)")
        case True
        with False Some Cons.prems have "check_entries ev p cs rest tl_err ?s = (r, st1)"
          by (auto simp: Let_def)
        from Cons.IH [OF this] obtain ns where
          "files st1 = files st" "trace st1 = trace ?s @ map (Sha256 p) ns" by auto
        then have "trace st1 = trace st @ map (Sha256 p) (hdr_Name hdr # ns)" by simp
        with \<open>files st1 = files st\<close> show ?thesis by blast
      next
        case stop: False
        with False Some Cons.prems have "st1 = ?s"
          by (auto simp: Let_def split: option.splits if_splits)
        with one show ?thesis by (metis emit_files)
      qed
    qed
  qed
qed

lemma load_manifest_frame:
  "load_manifest ev pn st = (r, st1) \<Longrightarrow> files st1 = files st \<and> trace st1 = trace st"
  unfolding load_manifest_def
  by (auto split: prod.splits sum.splits option.splits
      dest!: getReadCloser_frame ts_Close_eqD)

lemma vpc_frame:
  assumes "verifyPkgContents ev root m st = (r, st1)"
  shows "files st1 = files st \<and>
     (\<exists>ns. trace st1 = trace st @ ContentStart (Pkg m) # map (Sha256 (Pkg m)) ns)"
proof -
  let ?pn = "Join ev [root, cache, Pkg m]"
  let ?s0 = "emit (ContentStart (Pkg m)) st"
  obtain c s2 where lm: "load_manifest ev ?pn ?s0 = (c, s2)"
    by (cases "load_manifest ev ?pn ?s0")
  from load_manifest_frame [OF lm] have
    f2: "files s2 = files st" and t2: "trace s2 = trace st @ [ContentStart (Pkg m)]" by simp_all
  have stop: "st1 = s2 \<Longrightarrow> ?thesis"
    using f2 t2 by (auto intro: exI [of _ "[]"])
  show ?thesis
  proof (cases c)
    case (Inl err)
    with assms lm show ?thesis by (intro stop) (simp add: verifyPkgContents_def Let_def)
  next
    case (Inr cs)
    obtain o3 s3 where op: "os_Open ?pn s2 = (o3, s3)" by (cases "os_Open ?pn s2")
    from os_Open_eqD [OF op] f2 t2 have
      f3: "files s3 = files st" and t3: "trace s3 = trace st @ [ContentStart (Pkg m)]"
      by simp_all
    show ?thesis
    proof (cases o3)
      case (Inl err)
      with assms lm Inr op have "st1 = s3" by (simp add: verifyPkgContents_def Let_def)
      with f3 t3 show ?thesis by (auto intro: exI [of _ "[]"])
    next
      case pf: (Inr pf)
      with assms lm Inr op have
        "check_entries ev (Pkg m) cs (entries (tar_view pf)) (tail_err (tar_view pf)) s3 = (r, st1)"
        by (simp add: verifyPkgContents_def Let_def)
      from check_entries_frame [OF this] f3 t3 show ?thesis by auto
    qed
  qed
qed

section \<open>Order of trust and content verification\<close>

lemma trust_before_mono:
  "trust_before S tr \<Longrightarrow> S \<subseteq> S' \<Longrightarrow> trust_before S' tr"
proof (induction S tr arbitrary: S' rule: trust_before.induct)
  case (2 seen p tr)
  from "2.prems" have "insert p seen \<subseteq> insert p S'" by auto
  with "2.IH" "2.prems" show ?case by simp
qed auto

lemma trust_before_append:
  "trust_before S (xs @ ys) =
     (trust_before S xs \<and> trust_before (S \<union> {p. TrustOk p \<in> set xs}) ys)"
proof (induction S xs rule: trust_before.induct)
  case (2 seen p tr)
  have "insert p seen \<union> {q. TrustOk q \<in> set tr} = seen \<union> {q. TrustOk q \<in> set (TrustOk p # tr)}"
    by auto
  with 2 show ?case by simp
qed auto

lemma trust_before_Sha256s: "trust_before S (map (Sha256 p) ns) = (ns = [] \<or> p \<in> S)"
  by (induction ns) auto

lemma trust_before_HttpGets: "trust_before S (map HttpGet us)"
  by (induction us) auto

lemma trust_before_split:
  "trust_before S (pre @ e # post) \<Longrightarrow> e = ContentStart p \<or> e = Sha256 p n \<Longrightarrow>
     p \<in> S \<or> TrustOk p \<in> set pre"
  by (auto simp: trust_before_append)

lemma verify_each_inv:
  "verify_each ev root ms st = (r, st') \<Longrightarrow>
     files st' = files st \<and>
     (\<exists>new. trace st' = trace st @ new \<and> trust_before {} new \<and>
        (\<forall>p. TrustOk p \<in> set new \<longrightarrow> trusted ev root (files st) p) \<and>
        (\<forall>p. TrustFailed p \<in> set new \<longrightarrow> \<not> trusted ev root (files st) p) \<and>
        (\<forall>p. ContentStart p \<in> set new \<longrightarrow> TrustOk p \<in> set new) \<and>
        (\<forall>p n. Sha256 p n \<in> set new \<longrightarrow> TrustOk p \<in> set new))"
proof (induction ms arbitrary: st)
  case Nil
  then show ?case by auto
next
  case (Cons m ms)
  obtain r1 s1 where v1: "verifyManifestIntegrity ev root m st = (r1, s1)"
    by (cases "verifyManifestIntegrity ev root m st")
  note f1 = vmi_frame [OF v1]
  have t1: "(r1 = None) = trusted ev root (files st) (Pkg m)"
    using vmi_trusted [of ev root m st] v1 by simp
  show ?case
  proof (cases r1)
    case (Some err)
    with Cons.prems v1 have "st' = emit (TrustFailed (Pkg m)) s1" by simp
    with f1 t1 Some show ?thesis by (auto intro!: exI [of _ "[TrustFailed (Pkg m)]"])
  next
    case None
    let ?s = "emit (TrustOk (Pkg m)) s1"
    obtain r2 s2 where v2: "verifyPkgContents ev root m ?s = (r2, s2)"
      by (cases "verifyPkgContents ev root m ?s")
    from vpc_frame [OF v2] f1 obtain ns where
      f2: "files s2 = files st" and
      tr2: "trace s2 = trace st @ TrustOk (Pkg m) # ContentStart (Pkg m) # map (Sha256 (Pkg m)) ns"
      by auto
    let ?hd = "TrustOk (Pkg m) # ContentStart (Pkg m) # map (Sha256 (Pkg m)) ns"
    have hd_ok: "trust_before {} ?hd" by (simp add: trust_before_Sha256s)
    show ?thesis
    proof (cases r2)
      case (Some err)
      with Cons.prems v1 None v2 have "st' = s2" by simp
      with f2 tr2 hd_ok t1 None show ?thesis
        by (auto intro!: exI [of _ ?hd])
    next
      case r2: None
      with Cons.prems v1 None v2 have "verify_each ev root ms s2 = (r, st')" by simp
      from Cons.IH [OF this] f2 obtain new where
        f3: "files st' = files st" and tr3: "trace st' = trace s2 @ new" and
        tb: "trust_before {} new" and
        ok: "\<forall>p. TrustOk p \<in> set new \<longrightarrow> trusted ev root (files st) p" and
        bad: "\<forall>p. TrustFailed p \<in> set new \<longrightarrow> \<not> trusted ev root (files st) p" and
        cs: "\<forall>p. ContentStart p \<in> set new \<longrightarrow> TrustOk p \<in> set new" and
        sh: "\<forall>p n. Sha256 p n \<in> set new \<longrightarrow> TrustOk p \<in> set new" by auto
      have tb': "trust_before {} (?hd @ new)"
        unfolding trust_before_append using hd_ok trust_before_mono [OF tb] by simp
      have "trace st' = trace st @ (?hd @ new)" using tr3 tr2 by simp
      moreover have "\<forall>p. TrustOk p \<in> set (?hd @ new) \<longrightarrow> trusted ev root (files st) p"
        using ok t1 None by auto
      moreover have "\<forall>p. TrustFailed p \<in> set (?hd @ new) \<longrightarrow> \<not> trusted ev root (files st) p"
        using bad by auto
      moreover have "\<forall>p. ContentStart p \<in> set (?hd @ new) \<longrightarrow> TrustOk p \<in> set (?hd @ new)"
        using cs by auto
      moreover have "\<forall>p n. Sha256 p n \<in> set (?hd @ new) \<longrightarrow> TrustOk p \<in> set (?hd @ new)"
        using sh by auto
      ultimately show ?thesis using f3 tb' by blast
    qed
  qed
qed

section \<open>The fetch loop\<close>

lemma os_Create_frame:
  "os_Create ev p st = (r, st1) \<Longrightarrow>
     trace st1 = trace st \<and> (\<forall>q. q \<noteq> p \<longrightarrow> files st1 q = files st q)"
  by (auto simp: os_Create_def split: if_splits option.splits)

text \<open>One round of the loop, for the inductions below: either the round stops the
  loop, or the loop goes on from a state that differs at the package's cache file only.\<close>

lemma download_step:
  assumes "download ev cdir (m # ms) st = (r, st')"
  shows "(r \<noteq> None \<and> trace st' = trace st @ [HttpGet (URL m)] \<and>
            (\<forall>q. q \<noteq> Join ev [cdir, Pkg m] \<longrightarrow> files st' q = files st q)) \<or>
         (\<exists>s2. download ev cdir ms s2 = (r, st') \<and> trace s2 = trace st @ [HttpGet (URL m)] \<and>
            (\<forall>q. q \<noteq> Join ev [cdir, Pkg m] \<longrightarrow> files s2 q = files st q))"
proof -
  let ?s0 = "emit (HttpGet (URL m)) st"
  let ?fn = "Join ev [cdir, Pkg m]"
  show ?thesis
  proof (cases "http_Get ev (URL m)")
    case (Inl err)
    with assms show ?thesis by (auto simp: Let_def)
  next
    case (Inr resp)
    obtain c s1 where cr: "os_Create ev ?fn ?s0 = (c, s1)" by (cases "os_Create ev ?fn ?s0")
    from os_Create_frame [OF cr] have
      t1: "trace s1 = trace st @ [HttpGet (URL m)]" and
      f1: "\<forall>q. q \<noteq> ?fn \<longrightarrow> files s1 q = files st q" by simp_all
    show ?thesis
    proof (cases c)
      case (Some err)
      with assms Inr cr t1 f1 show ?thesis by (auto simp: Let_def)
    next
      case None
      show ?thesis
      proof (cases "io_Copy ev ?fn resp")
        case (CopyFailed err n part)
        with assms Inr cr None t1 f1 show ?thesis by (auto simp: Let_def)
      next
        case Copied
        let ?s2 = "s1\<lparr>files := (files s1)(?fn \<mapsto> File (Body resp))\<rparr>"
        show ?thesis
        proof (cases "Body_Close_err resp")
          case (Some err)
          with assms Inr cr None Copied t1 f1 show ?thesis by (auto simp: Let_def)
        next
          case ok: None
          with assms Inr cr None Copied have "download ev cdir ms ?s2 = (r, st')"
            by (simp add: Let_def)
          moreover have "trace ?s2 = trace st @ [HttpGet (URL m)]" using t1 by simp
          moreover have "\<forall>q. q \<noteq> ?fn \<longrightarrow> files ?s2 q = files st q" using f1 by simp
          ultimately show ?thesis by blast
        qed
      qed
    qed
  qed
qed

lemma download_frame:
  "download ev cdir ms st = (r, st') \<Longrightarrow>
     (\<exists>us. trace st' = trace st @ map HttpGet us) \<and>
     (\<forall>q. files st' q \<noteq> files st q \<longrightarrow> (\<exists>m\<in>set ms. q = Join ev [cdir, Pkg m]))"
proof (induction ms arbitrary: st)
  case Nil
  then show ?case by simp
next
  case (Cons m ms)
  from download_step [OF Cons.prems] show ?case
  proof (elim disjE conjE exE)
    assume "trace st' = trace st @ [HttpGet (URL m)]"
      and "\<forall>q. q \<noteq> Join ev [cdir, Pkg m] \<longrightarrow> files st' q = files st q"
    then show ?thesis by (auto intro: exI [of _ "[URL m]"])
  next
    fix s2
    assume d: "download ev cdir ms s2 = (r, st')"
      and t: "trace s2 = trace st @ [HttpGet (URL m)]"
      and f: "\<forall>q. q \<noteq> Join ev [cdir, Pkg m] \<longrightarrow> files s2 q = files st q"
    from Cons.IH [OF d] obtain us where
      t': "trace st' = trace s2 @ map HttpGet us" and
      f': "\<forall>q. files st' q \<noteq> files s2 q \<longrightarrow> (\<exists>m\<in>set ms. q = Join ev [cdir, Pkg m])"
      by blast
    have "trace st' = trace st @ map HttpGet (URL m # us)" using t t' by simp
    moreover have "\<forall>q. files st' q \<noteq> files st q \<longrightarrow> (\<exists>k\<in>set (m # ms). q = Join ev [cdir, Pkg k])"
      using f f' by (metis list.set_intros(1,2))
    ultimately show ?thesis by blast
  qed
qed

section \<open>\<open>Install\<close> as a whole\<close>

lemma os_MkdirAll_frame:
  "os_MkdirAll ev p st = (r, st1) \<Longrightarrow>
     trace st1 = trace st \<and> (\<forall>q. files st1 q = files st q \<or> files st1 q = Some Dir)"
  by (auto simp: os_MkdirAll_def split: option.splits)

text \<open>The stages of \<open>Install\<close>: where it stops, and the state it stops in.\<close>

lemma Install_stages:
  assumes "Install ev root pkgs st = (r, st')"
  shows "r \<noteq> None \<and>
    (\<exists>s1 ms. trace s1 = trace st \<and>
       (\<forall>q. files s1 q = files st q \<or> files s1 q = Some Dir) \<and>
       (st' = s1 \<or>
        (\<exists>d s2. download ev (Join ev [root, cache]) ms s1 = (d, s2) \<and>
           (st' = s2 \<or> (\<exists>v. verify_each ev root ms s2 = (v, st'))))))"
proof -
  have r: "r \<noteq> None"
    using assms unfolding Install_def Let_def
    by (auto split: sum.splits prod.splits option.splits if_splits)
  have stop: "st' = st \<Longrightarrow> ?thesis"
    using r by (intro conjI exI [of _ st]) auto
  show ?thesis
  proof (cases "LoadAvailable ev root")
    case (Inl err)
    with assms show ?thesis by (intro stop) (auto simp: Install_def)
  next
    case av: (Inr av)
    show ?thesis
    proof (cases "av pkgs")
      case (Inl err)
      with assms av show ?thesis by (intro stop) (auto simp: Install_def)
    next
      case (Inr ms)
      let ?cd = "Join ev [root, cache]"
      obtain c s1 where mk:
        "(if files st ?cd = None then os_MkdirAll ev ?cd st else (None, st)) = (c, s1)"
        by (cases "if files st ?cd = None then os_MkdirAll ev ?cd st else (None, st)")
      have t1: "trace s1 = trace st" and
        f1: "\<forall>q. files s1 q = files st q \<or> files s1 q = Some Dir"
        using mk by (auto split: if_splits dest: os_MkdirAll_frame)
      show ?thesis
      proof (cases "c = None \<and> files s1 ?cd = Some Dir")
        case False
        with assms av Inr mk have "st' = s1"
          by (auto simp: Install_def Let_def split: option.splits if_splits)
        with r t1 f1 show ?thesis by blast
      next
        case True
        obtain d s2 where dl: "download ev ?cd ms s1 = (d, s2)"
          by (cases "download ev ?cd ms s1")
        show ?thesis
        proof (cases d)
          case (Some err)
          with assms av Inr mk True dl have "st' = s2"
            by (simp add: Install_def Let_def)
          with r t1 f1 dl show ?thesis by blast
        next
          case None
          obtain v s3 where ve: "verify_each ev root ms s2 = (v, s3)"
            by (cases "verify_each ev root ms s2")
          with assms av Inr mk True dl None have "st' = s3"
            by (auto simp: Install_def Let_def split: option.splits)
          with r t1 f1 dl ve show ?thesis by blast
        qed
      qed
    qed
  qed
qed

lemma Install_trace:
  assumes "Install ev root pkgs st = (r, st')"
  shows "\<exists>us new. trace st' = trace st @ map HttpGet us @ new \<and> trust_before {} new \<and>
        (\<forall>p. TrustFailed p \<in> set new \<longrightarrow> TrustOk p \<notin> set new) \<and>
        (\<forall>p. ContentStart p \<in> set new \<longrightarrow> TrustOk p \<in> set new) \<and>
        (\<forall>p n. Sha256 p n \<in> set new \<longrightarrow> TrustOk p \<in> set new)"
proof -
  from Install_stages [OF assms] obtain s1 ms where
    t1: "trace s1 = trace st" and
    alt: "st' = s1 \<or> (\<exists>d s2. download ev (Join ev [root, cache]) ms s1 = (d, s2) \<and>
           (st' = s2 \<or> (\<exists>v. verify_each ev root ms s2 = (v, st'))))" by blast
  from alt show ?thesis
  proof (elim disjE exE conjE)
    assume "st' = s1"
    with t1 show ?thesis by (intro exI [of _ "[]"]) simp
  next
    fix d s2
    assume dl: "download ev (Join ev [root, cache]) ms s1 = (d, s2)" and "st' = s2"
    with download_frame [OF dl] t1 obtain us where "trace st' = trace st @ map HttpGet us"
      by auto
    then show ?thesis by (intro exI [of _ us] exI [of _ "[]"]) simp
  next
    fix d s2 v
    assume dl: "download ev (Join ev [root, cache]) ms s1 = (d, s2)"
      and ve: "verify_each ev root ms s2 = (v, st')"
    from download_frame [OF dl] t1 obtain us where t2: "trace s2 = trace st @ map HttpGet us"
      by auto
    from verify_each_inv [OF ve] t2 obtain new where
      "trace st' = trace st @ map HttpGet us @ new" "trust_before {} new"
      "\<forall>p. TrustOk p \<in> set new \<longrightarrow> trusted ev root (files s2) p"
      "\<forall>p. TrustFailed p \<in> set new \<longrightarrow> \<not> trusted ev root (files s2) p"
      "\<forall>p. ContentStart p \<in> set new \<longrightarrow> TrustOk p \<in> set new"
      "\<forall>p n. Sha256 p n \<in> set new \<longrightarrow> TrustOk p \<in> set new" by auto
    then show ?thesis by blast
  qed
qed

text \<open>
  C10. \<open>Install\<close> returns a non-nil error on every input, also when every stage
  succeeds; and it installs nothing: the only files it writes are the cache files of the
  packages it downloads.
\<close>

theorem Install_always_returns_error:
  "fst (Install ev root pkgs st) \<noteq> None \<and>
   (\<forall>q t. files (snd (Install ev root pkgs st)) q = Some (File t) \<and> files st q \<noteq> Some (File t)
      \<longrightarrow> (\<exists>m::meta. q = Join ev [Join ev [root, cache], Pkg m]))"
proof -
  obtain r st' where run: "Install ev root pkgs st = (r, st')"
    by (cases "Install ev root pkgs st")
  from Install_stages [OF run] obtain s1 ms where
    r: "r \<noteq> None" and
    f1: "\<forall>q. files s1 q = files st q \<or> files s1 q = Some Dir" and
    alt: "st' = s1 \<or> (\<exists>d s2. download ev (Join ev [root, cache]) ms s1 = (d, s2) \<and>
           (st' = s2 \<or> (\<exists>v. verify_each ev root ms s2 = (v, st'))))" by blast
  have early: "\<exists>m::meta. q = Join ev [Join ev [root, cache], Pkg m]"
    if "files s1 q = Some (File t)" "files st q \<noteq> Some (File t)" for q t
    using f1 that by (metis node.distinct(1) option.inject)
  have conf: "\<exists>m::meta. q = Join ev [Join ev [root, cache], Pkg m]"
    if dl: "download ev (Join ev [root, cache]) ms s1 = (d, s2)"
      and new: "files s2 q = Some (File t)" "files st q \<noteq> Some (File t)" for d s2 q t
  proof (cases "files s2 q = files s1 q")
    case True
    with new early show ?thesis by simp
  next
    case False
    moreover from download_frame [OF dl] have
      "\<forall>q. files s2 q \<noteq> files s1 q \<longrightarrow> (\<exists>m\<in>set ms. q = Join ev [Join ev [root, cache], Pkg m])"
      by (rule conjunct2)
    ultimately obtain m :: meta where "q = Join ev [Join ev [root, cache], Pkg m]" by auto
    then show ?thesis by auto
  qed
  have "\<forall>q t. files st' q = Some (File t) \<and> files st q \<noteq> Some (File t)
      \<longrightarrow> (\<exists>m::meta. q = Join ev [Join ev [root, cache], Pkg m])"
    using alt
  proof (elim disjE exE conjE)
    assume "st' = s1"
    with early show ?thesis by blast
  next
    fix d s2
    assume "download ev (Join ev [root, cache]) ms s1 = (d, s2)" and "st' = s2"
    with conf show ?thesis by blast
  next
    fix d s2 v
    assume dl: "download ev (Join ev [root, cache]) ms s1 = (d, s2)"
      and ve: "verify_each ev root ms s2 = (v, st')"
    from verify_each_inv [OF ve] have "files st' = files s2" by simp
    with conf [OF dl] show ?thesis by simp
  qed
  with r run show ?thesis by simp
qed

lemma ex_Install_good:
  "fst (Install ex_env ''r'' [''good''] ex_st) = Some NYI \<and>
   files (snd (Install ex_env ''r'' [''good''] ex_st)) ''r/var/cache/pm/good'' = Some (File good_tar)"
  by (simp add: model_defs example_defs)

theorem Install_always_returns_error_witness:
  "fst (Install ex_env ''r'' [''good''] ex_st) = Some NYI \<and>
   files (snd (Install ex_env ''r'' [''good''] ex_st)) ''r/var/cache/pm/good''
     = Some (File good_tar) \<and>
   files ex_st ''r/var/cache/pm/good'' \<noteq> Some (File good_tar) \<and>
   (\<exists>m::meta. ''r/var/cache/pm/good'' = Join ex_env [Join ex_env [''r'', cache], Pkg m])"
proof -
  have before: "files ex_st ''r/var/cache/pm/good'' \<noteq> Some (File good_tar)"
    by (simp add: ex_st_def)
  with Install_always_returns_error [of ex_env "''r''" "[''good'']" ex_st] ex_Install_good
  show ?thesis by blast
qed

text \<open>
  C2. In a run of \<open>Install\<close> that starts with an empty trace, every entry into content
  verification and every SHA-256 computation for a package comes after a successful
  trust verification of that package; and when trust verification fails for a package,
  content verification is never entered and no digest is ever computed for it.
\<close>

theorem trust_precedes_content:
  assumes "trace st = []" and "Install ev root pkgs st = (r, st')"
  shows "(\<forall>pre e post p n. trace st' = pre @ e # post \<and> (e = ContentStart p \<or> e = Sha256 p n)
            \<longrightarrow> TrustOk p \<in> set pre) \<and>
         (\<forall>p n. TrustFailed p \<in> set (trace st')
            \<longrightarrow> ContentStart p \<notin> set (trace st') \<and> Sha256 p n \<notin> set (trace st'))"
proof -
  from Install_trace [OF assms(2)] assms(1) obtain us new where
    tr: "trace st' = map HttpGet us @ new" and tb: "trust_before {} new" and
    bad: "\<forall>p. TrustFailed p \<in> set new \<longrightarrow> TrustOk p \<notin> set new" and
    cs: "\<forall>p. ContentStart p \<in> set new \<longrightarrow> TrustOk p \<in> set new" and
    sh: "\<forall>p n. Sha256 p n \<in> set new \<longrightarrow> TrustOk p \<in> set new" by auto
  have "{p. TrustOk p \<in> set (map HttpGet us)} = {}" by auto
  with tb have all: "trust_before {} (trace st')"
    unfolding tr trust_before_append by (simp add: trust_before_HttpGets)
  have order: "\<forall>pre e post p n. trace st' = pre @ e # post \<and> (e = ContentStart p \<or> e = Sha256 p n)
            \<longrightarrow> TrustOk p \<in> set pre"
  proof (intro allI impI, elim conjE)
    fix pre e post p n
    assume "trace st' = pre @ e # post" and e: "e = ContentStart p \<or> e = Sha256 p n"
    with all have "trust_before {} (pre @ e # post)" by simp
    from trust_before_split [OF this e] show "TrustOk p \<in> set pre" by simp
  qed
  have "\<forall>p n. TrustFailed p \<in> set (trace st')
            \<longrightarrow> ContentStart p \<notin> set (trace st') \<and> Sha256 p n \<notin> set (trace st')"
    using bad cs sh unfolding tr by auto
  with order show ?thesis by blast
qed

lemma ex_Install_good_bad:
  "trace (snd (Install ex_env ''r'' [''good'', ''bad''] ex_st)) =
     [HttpGet ''http://repo/good'', HttpGet ''http://repo/bad'', TrustOk ''good'',
      ContentStart ''good'', Sha256 ''good'' ''bin/foo'', TrustFailed ''bad'']"
  by (simp add: model_defs example_defs)

theorem trust_precedes_content_witness:
  "trace ex_st = [] \<and>
   trace (snd (Install ex_env ''r'' [''good'', ''bad''] ex_st)) =
     [HttpGet ''http://repo/good'', HttpGet ''http://repo/bad'', TrustOk ''good'',
      ContentStart ''good''] @ Sha256 ''good'' ''bin/foo'' # [TrustFailed ''bad''] \<and>
   TrustOk ''good'' \<in> set [HttpGet ''http://repo/good'', HttpGet ''http://repo/bad'',
      TrustOk ''good'', ContentStart ''good''] \<and>
   TrustFailed ''bad'' \<in> set (trace (snd (Install ex_env ''r'' [''good'', ''bad''] ex_st))) \<and>
   ContentStart ''bad'' \<notin> set (trace (snd (Install ex_env ''r'' [''good'', ''bad''] ex_st))) \<and>
   Sha256 ''bad'' ''bin/foo'' \<notin> set (trace (snd (Install ex_env ''r'' [''good'', ''bad''] ex_st)))"
proof -
  let ?run = "Install ex_env ''r'' [''good'', ''bad''] ex_st"
  have e: "trace ex_st = []" by (simp add: ex_st_def)
  have p: "?run = (fst ?run, snd ?run)" by simp
  note main = trust_precedes_content [OF e p]
  have t: "trace (snd ?run) =
     [HttpGet ''http://repo/good'', HttpGet ''http://repo/bad'', TrustOk ''good'',
      ContentStart ''good''] @ Sha256 ''good'' ''bin/foo'' # [TrustFailed ''bad'']"
    using ex_Install_good_bad by simp
  have f: "TrustFailed ''bad'' \<in> set (trace (snd ?run))"
    using ex_Install_good_bad by simp
  from main t have "TrustOk ''good'' \<in> set [HttpGet ''http://repo/good'',
      HttpGet ''http://repo/bad'', TrustOk ''good'', ContentStart ''good'']" by blast
  moreover from main f have "ContentStart ''bad'' \<notin> set (trace (snd ?run)) \<and>
      Sha256 ''bad'' ''bin/foo'' \<notin> set (trace (snd ?run))" by blast
  ultimately show ?thesis using e t f by blast
qed

section \<open>The traversal of the archive\<close>

lemma check_entries_result:
  "fst (check_entries ev p cs es tl_err st) = fst (check_entries ev p cs es tl_err st')"
  by (induction es arbitrary: st st') (auto simp: Let_def split: option.splits)

text \<open>The traversal accepts exactly when every entry passes and the archive ends with
  \<open>io.EOF\<close>.\<close>

lemma check_entries_None_iff:
  "(fst (check_entries ev p cs es tl_err st) = None) =
     (list_all (passes ev cs) es \<and> tl_err = None)"
  by (induction es arbitrary: st)
     (auto simp: passes_def is_content_def Let_def split: option.splits)

text \<open>Entries that pass are traversed, a digest being computed for each content entry
  among them, and the loop goes on with the rest.\<close>

lemma check_entries_prefix:
  "list_all (passes ev cs) pre \<Longrightarrow>
     check_entries ev p cs (pre @ rest) tl_err st =
     check_entries ev p cs rest tl_err (st\<lparr>trace := trace st @ map (Sha256 p) (digested pre)\<rparr>)"
proof (induction pre arbitrary: st)
  case Nil
  then show ?case by (simp add: digested_def)
next
  case (Cons hdr pre)
  then have rest: "list_all (passes ev cs) pre" by simp
  show ?case
  proof (cases "is_content hdr")
    case False
    then have "check_entries ev p cs ((hdr # pre) @ rest) tl_err st =
               check_entries ev p cs (pre @ rest) tl_err st"
      by (auto simp: is_content_def)
    with Cons.IH [OF rest] False show ?thesis by (simp add: digested_def)
  next
    case True
    with Cons.prems have "e_err hdr = None" "cs (hdr_Name hdr) = Some (sha256_hex ev (e_data hdr))"
      by (simp_all add: passes_def)
    with True have "check_entries ev p cs ((hdr # pre) @ rest) tl_err st =
               check_entries ev p cs (pre @ rest) tl_err (emit (Sha256 p (hdr_Name hdr)) st)"
      by (simp add: is_content_def Let_def)
    with Cons.IH [OF rest] True show ?thesis by (simp add: digested_def emit_def)
  qed
qed

section \<open>The manifest\<close>

lemma load_manifest_result:
  "files st = files st' \<Longrightarrow> fst (load_manifest ev pn st) = fst (load_manifest ev pn st')"
proof -
  assume f: "files st = files st'"
  obtain r1 s1 where g1: "getReadCloser pn ''manifest.sha256'' st = (r1, s1)"
    by (cases "getReadCloser pn ''manifest.sha256'' st")
  obtain r1' s1' where g1': "getReadCloser pn ''manifest.sha256'' st' = (r1', s1')"
    by (cases "getReadCloser pn ''manifest.sha256'' st'")
  have r1: "r1' = r1"
    using getReadCloser_result [OF f, of pn "''manifest.sha256''"] g1 g1' by simp
  show ?thesis
    unfolding load_manifest_def g1 g1' r1
    by (auto split: prod.splits sum.splits option.splits dest!: ts_Close_eqD)
qed

text \<open>When the manifest loads, the archive exists.\<close>

lemma load_manifest_Inr_file:
  "fst (load_manifest ev pn st) = Inr cs \<Longrightarrow> files st pn \<noteq> None"
  unfolding load_manifest_def getReadCloser_def os_Open_def
  by (auto split: prod.splits sum.splits option.splits)

lemma load_manifest_Inr:
  assumes "files st pn = Some pf"
    and "seek ''manifest.sha256'' (entries (tar_view pf)) (tail_err (tar_view pf)) = Inr man"
    and "Scanner (e_data man, e_err man) = (lines, None)"
    and "manifest_lines lines Map.empty = Inr cs"
    and "Close_err ev pn = None"
  shows "fst (load_manifest ev pn st) = Inr cs"
  using assms
  by (simp add: load_manifest_def getReadCloser_def os_Open_def ts_Read_def ts_Close_def
      os_Close_def)

text \<open>\<open>verifyPkgContents\<close> in terms of the manifest and the traversal.\<close>

lemma vpc_fst:
  "fst (verifyPkgContents ev root m st) =
     (case fst (load_manifest ev (Join ev [root, cache, Pkg m]) st) of
        Inl err \<Rightarrow> Some err
      | Inr cs \<Rightarrow>
          (case files st (Join ev [root, cache, Pkg m]) of
             None \<Rightarrow> Some (Wrap (LibErr ''open: no such file or directory'') ''opening pkg file'')
           | Some pf \<Rightarrow>
               fst (check_entries ev (Pkg m) cs (entries (tar_view pf)) (tail_err (tar_view pf)) st)))"
proof -
  let ?pn = "Join ev [root, cache, Pkg m]"
  let ?s0 = "emit (ContentStart (Pkg m)) st"
  obtain c s2 where lm: "load_manifest ev ?pn ?s0 = (c, s2)"
    by (cases "load_manifest ev ?pn ?s0")
  have c: "fst (load_manifest ev ?pn st) = c"
    using load_manifest_result [of st ?s0 ev ?pn] lm by simp
  from load_manifest_frame [OF lm] have f2: "files s2 = files st" by simp
  show ?thesis
  proof (cases c)
    case (Inl err)
    with lm c show ?thesis by (simp add: verifyPkgContents_def Let_def)
  next
    case (Inr cs)
    show ?thesis
    proof (cases "files st ?pn")
      case None
      with lm c Inr f2 show ?thesis
        by (simp add: verifyPkgContents_def Let_def os_Open_def)
    next
      case (Some pf)
      let ?s3 = "s2\<lparr>handles := handles s2 @ [?pn]\<rparr>"
      have "fst (check_entries ev (Pkg m) cs (entries (tar_view pf)) (tail_err (tar_view pf)) ?s3)
          = fst (check_entries ev (Pkg m) cs (entries (tar_view pf)) (tail_err (tar_view pf)) st)"
        by (rule check_entries_result)
      moreover have "verifyPkgContents ev root m st =
          check_entries ev (Pkg m) cs (entries (tar_view pf)) (tail_err (tar_view pf)) ?s3"
        using Some lm c Inr f2 by (simp add: verifyPkgContents_def Let_def os_Open_def)
      ultimately show ?thesis using c Inr Some by simp
    qed
  qed
qed

text \<open>The trace of \<open>verifyPkgContents\<close> when the manifest loads and the traversal is
  known.\<close>

lemma vpc_trace:
  assumes "fst (load_manifest ev (Join ev [root, cache, Pkg m]) st) = Inr cs"
    and "files st (Join ev [root, cache, Pkg m]) = Some pf"
    and "\<And>s. trace (snd (check_entries ev (Pkg m) cs (entries (tar_view pf))
                 (tail_err (tar_view pf)) s)) = trace s @ map (Sha256 (Pkg m)) ns"
  shows "trace (snd (verifyPkgContents ev root m st)) =
           trace st @ ContentStart (Pkg m) # map (Sha256 (Pkg m)) ns"
proof -
  let ?pn = "Join ev [root, cache, Pkg m]"
  let ?s0 = "emit (ContentStart (Pkg m)) st"
  obtain c s2 where lm: "load_manifest ev ?pn ?s0 = (c, s2)"
    by (cases "load_manifest ev ?pn ?s0")
  have c: "c = Inr cs"
    using load_manifest_result [of st ?s0 ev ?pn] lm assms(1) by simp
  from load_manifest_frame [OF lm] have
    f2: "files s2 = files st" and t2: "trace s2 = trace st @ [ContentStart (Pkg m)]" by simp_all
  obtain o3 s3 where op: "os_Open ?pn s2 = (o3, s3)" by (cases "os_Open ?pn s2")
  from os_Open_eqD [OF op] f2 t2 assms(2) have
    o3: "o3 = Inr pf" and t3: "trace s3 = trace st @ [ContentStart (Pkg m)]" by auto
  have "verifyPkgContents ev root m st =
      check_entries ev (Pkg m) cs (entries (tar_view pf)) (tail_err (tar_view pf)) s3"
    using lm c op o3 by (simp add: verifyPkgContents_def Let_def)
  with assms(3) [of s3] t3 show ?thesis by simp
qed

lemma vpc_result:
  "files st = files st' \<Longrightarrow>
     fst (verifyPkgContents ev root m st) = fst (verifyPkgContents ev root m st')"
  unfolding vpc_fst
  using load_manifest_result [of st st' ev "Join ev [root, cache, Pkg m]"]
        check_entries_result [of ev "Pkg m" _ _ _ st st']
  by (auto split: sum.splits option.splits)

text \<open>A package that content verification rejects stops the loop of \<open>Install\<close>.\<close>

lemma verify_each_rejects:
  assumes "fst (verifyPkgContents ev root m st) \<noteq> None"
  shows "fst (verify_each ev root (m # ms) st) \<noteq> None"
proof -
  obtain r1 s1 where v1: "verifyManifestIntegrity ev root m st = (r1, s1)"
    by (cases "verifyManifestIntegrity ev root m st")
  show ?thesis
  proof (cases r1)
    case (Some err)
    with v1 show ?thesis by simp
  next
    case None
    let ?s = "emit (TrustOk (Pkg m)) s1"
    from vmi_frame [OF v1] have "files st = files ?s" by simp
    from vpc_result [OF this] assms have "fst (verifyPkgContents ev root m ?s) \<noteq> None"
      by simp
    then obtain err s2 where "verifyPkgContents ev root m ?s = (Some err, s2)"
      by (cases "verifyPkgContents ev root m ?s") auto
    with v1 None show ?thesis by simp
  qed
qed

text \<open>
  C6. Given the manifest mapping \<open>cs\<close> of a package and a content entry \<open>hdr\<close> of its
  archive (not a control entry, not a directory) whose name the mapping does not have:
  content verification returns an error, and so does the loop of \<open>Install\<close> at this
  package, whatever follows it; when the traversal reaches the entry (all entries before
  it pass), the error is the undeclared-file error naming this entry and the traversal
  stops there: digests were computed for the content entries before it and for nothing
  else.
\<close>

theorem undeclared_file_rejected:
  assumes "fst (load_manifest ev (Join ev [root, cache, Pkg m]) st) = Inr cs"
    and "files st (Join ev [root, cache, Pkg m]) = Some pf"
    and "entries (tar_view pf) = pre @ hdr # post"
    and "is_content hdr"
    and "cs (hdr_Name hdr) = None"
  shows "fst (verifyPkgContents ev root m st) \<noteq> None \<and>
         (\<forall>ms. fst (verify_each ev root (m # ms) st) \<noteq> None) \<and>
         (list_all (passes ev cs) pre \<longrightarrow>
            fst (verifyPkgContents ev root m st) = Some (ExtraFile (hdr_Name hdr)) \<and>
            trace (snd (verifyPkgContents ev root m st)) =
              trace st @ ContentStart (Pkg m) # map (Sha256 (Pkg m)) (digested pre))"
proof -
  let ?es = "entries (tar_view pf)" and ?tl = "tail_err (tar_view pf)"
  have fails: "\<not> passes ev cs hdr" using assms(4,5) by (simp add: passes_def)
  have res: "fst (verifyPkgContents ev root m st) = fst (check_entries ev (Pkg m) cs ?es ?tl st)"
    using assms(1,2) by (simp add: vpc_fst)
  have rej: "fst (verifyPkgContents ev root m st) \<noteq> None"
    unfolding res check_entries_None_iff using fails assms(3) by simp
  have stop: "check_entries ev (Pkg m) cs (hdr # post) ?tl s = (Some (ExtraFile (hdr_Name hdr)), s)"
    for s using assms(4,5) by (simp add: is_content_def)
  have reach: "fst (verifyPkgContents ev root m st) = Some (ExtraFile (hdr_Name hdr)) \<and>
            trace (snd (verifyPkgContents ev root m st)) =
              trace st @ ContentStart (Pkg m) # map (Sha256 (Pkg m)) (digested pre)"
    if pre: "list_all (passes ev cs) pre"
  proof -
    have run: "check_entries ev (Pkg m) cs ?es ?tl s =
        (Some (ExtraFile (hdr_Name hdr)), s\<lparr>trace := trace s @ map (Sha256 (Pkg m)) (digested pre)\<rparr>)"
      for s unfolding assms(3) check_entries_prefix [OF pre] stop ..
    have "trace (snd (check_entries ev (Pkg m) cs ?es ?tl s)) =
        trace s @ map (Sha256 (Pkg m)) (digested pre)" for s
      unfolding run by simp
    from vpc_trace [OF assms(1,2) this] res run [of st] show ?thesis by simp
  qed
  from rej verify_each_rejects [OF rej] reach show ?thesis by blast
qed

lemma ex_extra_manifest:
  "fst (load_manifest ex_env ''r/var/cache/pm/pkg'' (cached extra_tar))
     = Inr [''bin/foo'' \<mapsto> ''sha:hello'']"
  by (simp add: model_defs example_defs)

theorem undeclared_file_rejected_witness:
  "fst (verifyPkgContents ex_env ''r'' ex_pkg (cached extra_tar)) = Some (ExtraFile ''bin/bar'') \<and>
   trace (snd (verifyPkgContents ex_env ''r'' ex_pkg (cached extra_tar))) =
     [ContentStart ''pkg'', Sha256 ''pkg'' ''bin/foo''] \<and>
   fst (verify_each ex_env ''r'' [ex_pkg] (cached extra_tar)) \<noteq> None"
proof -
  let ?cs = "[''bin/foo'' \<mapsto> ''sha:hello'']"
  have pn: "Join ex_env [''r'', cache, Pkg ex_pkg] = ''r/var/cache/pm/pkg''"
    by (simp add: example_defs cache_def)
  have h1: "fst (load_manifest ex_env (Join ex_env [''r'', cache, Pkg ex_pkg]) (cached extra_tar))
      = Inr ?cs"
    unfolding pn by (rule ex_extra_manifest)
  have h2: "files (cached extra_tar) (Join ex_env [''r'', cache, Pkg ex_pkg]) = Some (File extra_tar)"
    unfolding pn by (simp add: cached_def)
  have h3: "entries (tar_view (File extra_tar)) =
      entries good_tar @ ex_file ''bin/bar'' ''extra'' # []"
    by (simp add: tar_view_def extra_tar_def)
  have h4: "is_content (ex_file ''bin/bar'' ''extra'')"
    by (simp add: is_content_def ex_file_def)
  have h5: "?cs (hdr_Name (ex_file ''bin/bar'' ''extra'')) = None"
    by (simp add: ex_file_def)
  have h6: "list_all (passes ex_env ?cs) (entries good_tar)"
    by (simp add: passes_def is_content_def example_defs)
  have d: "digested (entries good_tar) = [''bin/foo'']"
    by (simp add: digested_def is_content_def example_defs)
  have n: "hdr_Name (ex_file ''bin/bar'' ''extra'') = ''bin/bar''" "Pkg ex_pkg = ''pkg''"
    "trace (cached extra_tar) = []"
    by (simp_all add: ex_file_def ex_pkg_def cached_def)
  from undeclared_file_rejected [OF h1 h2 h3 h4 h5] h6 have
    "fst (verifyPkgContents ex_env ''r'' ex_pkg (cached extra_tar))
       = Some (ExtraFile (hdr_Name (ex_file ''bin/bar'' ''extra'')))"
    "trace (snd (verifyPkgContents ex_env ''r'' ex_pkg (cached extra_tar))) =
       trace (cached extra_tar) @ ContentStart (Pkg ex_pkg)
         # map (Sha256 (Pkg ex_pkg)) (digested (entries good_tar))"
    "fst (verify_each ex_env ''r'' (ex_pkg # []) (cached extra_tar)) \<noteq> None"
    by blast+
  then show ?thesis unfolding n d by simp
qed

text \<open>
  C7. Given the manifest mapping \<open>cs\<close> of a package and a content entry \<open>hdr\<close> of its
  archive that the mapping declares, that is read to its end, and whose lower-case hex
  SHA-256 digest differs from the declared one: content verification returns an error,
  and so does the loop of \<open>Install\<close> at this package, whatever follows it; when the
  traversal reaches the entry (all entries before it pass), the error is the checksum
  error naming this entry and the traversal stops there, the digest of this entry being
  the last one computed.
\<close>

theorem checksum_mismatch_rejected:
  assumes "fst (load_manifest ev (Join ev [root, cache, Pkg m]) st) = Inr cs"
    and "files st (Join ev [root, cache, Pkg m]) = Some pf"
    and "entries (tar_view pf) = pre @ hdr # post"
    and "is_content hdr"
    and "cs (hdr_Name hdr) = Some sha"
    and "e_err hdr = None"
    and "sha \<noteq> sha256_hex ev (e_data hdr)"
  shows "fst (verifyPkgContents ev root m st) \<noteq> None \<and>
         (\<forall>ms. fst (verify_each ev root (m # ms) st) \<noteq> None) \<and>
         (list_all (passes ev cs) pre \<longrightarrow>
            fst (verifyPkgContents ev root m st) = Some (ChecksumIncorrect (hdr_Name hdr)) \<and>
            trace (snd (verifyPkgContents ev root m st)) =
              trace st @ ContentStart (Pkg m)
                # map (Sha256 (Pkg m)) (digested pre @ [hdr_Name hdr]))"
proof -
  let ?es = "entries (tar_view pf)" and ?tl = "tail_err (tar_view pf)"
  have fails: "\<not> passes ev cs hdr" using assms(4,5,7) by (simp add: passes_def)
  have res: "fst (verifyPkgContents ev root m st) = fst (check_entries ev (Pkg m) cs ?es ?tl st)"
    using assms(1,2) by (simp add: vpc_fst)
  have rej: "fst (verifyPkgContents ev root m st) \<noteq> None"
    unfolding res check_entries_None_iff using fails assms(3) by simp
  have stop: "check_entries ev (Pkg m) cs (hdr # post) ?tl s =
      (Some (ChecksumIncorrect (hdr_Name hdr)), emit (Sha256 (Pkg m) (hdr_Name hdr)) s)"
    for s using assms(4,5,6,7) by (simp add: is_content_def Let_def)
  have reach: "fst (verifyPkgContents ev root m st) = Some (ChecksumIncorrect (hdr_Name hdr)) \<and>
            trace (snd (verifyPkgContents ev root m st)) =
              trace st @ ContentStart (Pkg m)
                # map (Sha256 (Pkg m)) (digested pre @ [hdr_Name hdr])"
    if pre: "list_all (passes ev cs) pre"
  proof -
    have run: "check_entries ev (Pkg m) cs ?es ?tl s =
        (Some (ChecksumIncorrect (hdr_Name hdr)),
         emit (Sha256 (Pkg m) (hdr_Name hdr))
           (s\<lparr>trace := trace s @ map (Sha256 (Pkg m)) (digested pre)\<rparr>))"
      for s unfolding assms(3) check_entries_prefix [OF pre] stop ..
    have "trace (snd (check_entries ev (Pkg m) cs ?es ?tl s)) =
        trace s @ map (Sha256 (Pkg m)) (digested pre @ [hdr_Name hdr])" for s
      unfolding run by simp
    from vpc_trace [OF assms(1,2) this] res run [of st] show ?thesis by simp
  qed
  from rej verify_each_rejects [OF rej] reach show ?thesis by blast
qed

lemma ex_tampered_manifest:
  "fst (load_manifest ex_env ''r/var/cache/pm/pkg'' (cached tampered_tar))
     = Inr [''bin/foo'' \<mapsto> ''sha:hello'']"
  by (simp add: model_defs example_defs)

theorem checksum_mismatch_rejected_witness:
  "fst (verifyPkgContents ex_env ''r'' ex_pkg (cached tampered_tar))
     = Some (ChecksumIncorrect ''bin/foo'') \<and>
   trace (snd (verifyPkgContents ex_env ''r'' ex_pkg (cached tampered_tar))) =
     [ContentStart ''pkg'', Sha256 ''pkg'' ''bin/foo''] \<and>
   fst (verify_each ex_env ''r'' [ex_pkg] (cached tampered_tar)) \<noteq> None"
proof -
  let ?cs = "[''bin/foo'' \<mapsto> ''sha:hello'']"
  let ?pre = "[ex_file ''manifest.sha256'' ex_manifest,
               ex_file ''manifest.sha256.asc'' (''signed:'' @ ex_manifest)]"
  let ?hdr = "ex_file ''bin/foo'' ''hellp''"
  have pn: "Join ex_env [''r'', cache, Pkg ex_pkg] = ''r/var/cache/pm/pkg''"
    by (simp add: example_defs cache_def)
  have h1: "fst (load_manifest ex_env (Join ex_env [''r'', cache, Pkg ex_pkg])
      (cached tampered_tar)) = Inr ?cs"
    unfolding pn by (rule ex_tampered_manifest)
  have h2: "files (cached tampered_tar) (Join ex_env [''r'', cache, Pkg ex_pkg])
      = Some (File tampered_tar)"
    unfolding pn by (simp add: cached_def)
  have h3: "entries (tar_view (File tampered_tar)) = ?pre @ ?hdr # []"
    by (simp add: tar_view_def tampered_tar_def)
  have h4: "is_content ?hdr" by (simp add: is_content_def ex_file_def)
  have h5: "?cs (hdr_Name ?hdr) = Some ''sha:hello''" by (simp add: ex_file_def)
  have h6: "e_err ?hdr = None" by (simp add: ex_file_def)
  have h7: "''sha:hello'' \<noteq> sha256_hex ex_env (e_data ?hdr)"
    by (simp add: ex_file_def ex_env_def)
  have h8: "list_all (passes ex_env ?cs) ?pre"
    by (simp add: passes_def is_content_def ex_file_def)
  have d: "digested ?pre = []" by (simp add: digested_def is_content_def ex_file_def)
  have n: "hdr_Name ?hdr = ''bin/foo''" "Pkg ex_pkg = ''pkg''" "trace (cached tampered_tar) = []"
    by (simp_all add: ex_file_def ex_pkg_def cached_def)
  from checksum_mismatch_rejected [OF h1 h2 h3 h4 h5 h6 h7] h8 have
    "fst (verifyPkgContents ex_env ''r'' ex_pkg (cached tampered_tar))
       = Some (ChecksumIncorrect (hdr_Name ?hdr))"
    "trace (snd (verifyPkgContents ex_env ''r'' ex_pkg (cached tampered_tar))) =
       trace (cached tampered_tar) @ ContentStart (Pkg ex_pkg)
         # map (Sha256 (Pkg ex_pkg)) (digested ?pre @ [hdr_Name ?hdr])"
    "fst (verify_each ex_env ''r'' (ex_pkg # []) (cached tampered_tar)) \<noteq> None"
    by blast+
  then show ?thesis unfolding n d by simp
qed

text \<open>
  C1, as the code has it. Content verification only looks at the entries the archive
  holds: when the manifest loads, the archive ends with \<open>io.EOF\<close> and every entry it holds
  passes, \<open>verifyPkgContents\<close> returns nil, also when a path the manifest declares has no
  entry in the archive. No error for a missing declared file exists.
\<close>

theorem missing_declared_file_accepted:
  assumes "fst (load_manifest ev (Join ev [root, cache, Pkg m]) st) = Inr cs"
    and "files st (Join ev [root, cache, Pkg m]) = Some pf"
    and "tail_err (tar_view pf) = None"
    and "list_all (passes ev cs) (entries (tar_view pf))"
    and "cs path = Some dg"
    and "path \<notin> set (map hdr_Name (entries (tar_view pf)))"
  shows "fst (verifyPkgContents ev root m st) = None"
  using assms(1-4) by (simp add: vpc_fst check_entries_None_iff)

lemma ex_short_manifest:
  "fst (load_manifest ex_env ''r/var/cache/pm/pkg'' (cached short_tar))
     = Inr [''bin/foo'' \<mapsto> ''sha:hello'', ''lib/bar'' \<mapsto> ''sha:world'']"
  by (simp add: model_defs example_defs)

theorem missing_declared_file_accepted_witness:
  "[''bin/foo'' \<mapsto> ''sha:hello'', ''lib/bar'' \<mapsto> ''sha:world''] ''lib/bar'' = Some ''sha:world'' \<and>
   ''lib/bar'' \<notin> set (map hdr_Name (entries (tar_view (File short_tar)))) \<and>
   fst (verifyPkgContents ex_env ''r'' ex_pkg (cached short_tar)) = None"
proof -
  let ?cs = "[''bin/foo'' \<mapsto> ''sha:hello'', ''lib/bar'' \<mapsto> ''sha:world'']"
  have pn: "Join ex_env [''r'', cache, Pkg ex_pkg] = ''r/var/cache/pm/pkg''"
    by (simp add: example_defs cache_def)
  have h1: "fst (load_manifest ex_env (Join ex_env [''r'', cache, Pkg ex_pkg])
      (cached short_tar)) = Inr ?cs"
    unfolding pn by (rule ex_short_manifest)
  have h2: "files (cached short_tar) (Join ex_env [''r'', cache, Pkg ex_pkg])
      = Some (File short_tar)"
    unfolding pn by (simp add: cached_def)
  have h3: "tail_err (tar_view (File short_tar)) = None"
    by (simp add: tar_view_def short_tar_def)
  have h4: "list_all (passes ex_env ?cs) (entries (tar_view (File short_tar)))"
    by (simp add: tar_view_def short_tar_def passes_def is_content_def ex_file_def ex_env_def)
  have h5: "?cs ''lib/bar'' = Some ''sha:world''" by simp
  have h6: "''lib/bar'' \<notin> set (map hdr_Name (entries (tar_view (File short_tar))))"
    by (simp add: tar_view_def short_tar_def ex_file_def)
  from missing_declared_file_accepted [OF h1 h2 h3 h4 h5 h6] h5 h6 show ?thesis by blast
qed

text \<open>
  C1 fails as stated: the manifest of this archive declares \<open>lib/bar\<close>, the archive has
  no such entry, its other entries match, and \<open>verifyPkgContents\<close> accepts it.
\<close>

theorem missing_declared_file_counterexample:
  "fst (load_manifest ex_env ''r/var/cache/pm/pkg'' (cached short_tar))
     = Inr [''bin/foo'' \<mapsto> ''sha:hello'', ''lib/bar'' \<mapsto> ''sha:world''] \<and>
   map hdr_Name (entries short_tar) = [''manifest.sha256'', ''manifest.sha256.asc'', ''bin/foo''] \<and>
   fst (verifyPkgContents ex_env ''r'' ex_pkg (cached short_tar)) = None"
  by (simp add: model_defs example_defs)

section \<open>Valid packages\<close>

lemma valid_pkg_passes:
  assumes "valid_pkg ev root (files st) m"
  shows "fst (verifyManifestIntegrity ev root m st) = None \<and>
         fst (verifyPkgContents ev root m st) = None"
proof -
  let ?pn = "Join ev [root, cache, Pkg m]"
  from assms obtain pf where pf: "files st ?pn = Some pf"
    by (auto simp: valid_pkg_def Let_def split: option.splits)
  let ?es = "entries (tar_view pf)"
  from assms pf have tl: "tail_err (tar_view pf) = None" and cl: "Close_err ev ?pn = None"
    by (simp_all add: valid_pkg_def Let_def)
  from assms pf obtain man sig where
    man: "seek ''manifest.sha256'' ?es None = Inr man" and
    sig: "seek ''manifest.sha256.asc'' ?es None = Inr sig"
    by (auto simp: valid_pkg_def Let_def split: sum.splits)
  from assms pf man sig have
    kv: "keyring_Verify ev root (e_data man, e_err man) (e_data sig, e_err sig) = None"
    by (simp add: valid_pkg_def Let_def)
  from assms pf man sig obtain lines cs where
    sc: "Scanner (e_data man, e_err man) = (lines, None)" and
    parsed: "manifest_lines lines Map.empty = Inr cs" and
    ok: "list_all (passes ev cs) ?es"
    by (auto simp: valid_pkg_def Let_def split: prod.splits option.splits sum.splits)
  have "fst (verifyManifestIntegrity ev root m st) = None"
    using pf tl cl man sig kv
    by (simp add: verifyManifestIntegrity_def Let_def getReadCloser_def os_Open_def
        ts_Read_def ts_Close_def os_Close_def)
  moreover have "fst (load_manifest ev ?pn st) = Inr cs"
    using pf man sc parsed cl tl by (intro load_manifest_Inr [where pf = pf and man = man]) simp_all
  then have "fst (verifyPkgContents ev root m st) = None"
    using pf tl ok by (simp add: vpc_fst check_entries_None_iff)
  ultimately show ?thesis by simp
qed

lemma verify_each_valid:
  "list_all (valid_pkg ev root (files st)) ms \<Longrightarrow> fst (verify_each ev root ms st) = None"
proof (induction ms arbitrary: st)
  case Nil
  then show ?case by simp
next
  case (Cons m ms)
  then have vm: "valid_pkg ev root (files st) m" and
    rest: "list_all (valid_pkg ev root (files st)) ms" by simp_all
  obtain r1 s1 where v1: "verifyManifestIntegrity ev root m st = (r1, s1)"
    by (cases "verifyManifestIntegrity ev root m st")
  with valid_pkg_passes [OF vm] have r1: "r1 = None" by simp
  let ?s = "emit (TrustOk (Pkg m)) s1"
  from vmi_frame [OF v1] have fs: "files ?s = files st" by simp
  obtain r2 s2 where v2: "verifyPkgContents ev root m ?s = (r2, s2)"
    by (cases "verifyPkgContents ev root m ?s")
  from vm fs have "valid_pkg ev root (files ?s) m" by simp
  from valid_pkg_passes [OF this] v2 have r2: "r2 = None" by simp
  from vpc_frame [OF v2] fs have "files s2 = files st" by simp
  with rest have "list_all (valid_pkg ev root (files s2)) ms" by simp
  from Cons.IH [OF this] v1 r1 v2 r2 show ?case by simp
qed

lemma verify_each_None_trace:
  "verify_each ev root ms st = (None, st') \<Longrightarrow> m \<in> set ms \<Longrightarrow>
     TrustOk (Pkg m) \<in> set (trace st') \<and> ContentStart (Pkg m) \<in> set (trace st')"
proof (induction ms arbitrary: st)
  case Nil
  then show ?case by simp
next
  case (Cons k ms)
  obtain r1 s1 where v1: "verifyManifestIntegrity ev root k st = (r1, s1)"
    by (cases "verifyManifestIntegrity ev root k st")
  with Cons.prems(1) have r1: "r1 = None" by (cases r1) auto
  let ?s = "emit (TrustOk (Pkg k)) s1"
  obtain r2 s2 where v2: "verifyPkgContents ev root k ?s = (r2, s2)"
    by (cases "verifyPkgContents ev root k ?s")
  with Cons.prems(1) v1 r1 have r2: "r2 = None" by (cases r2) auto
  with Cons.prems(1) v1 r1 v2 have rec: "verify_each ev root ms s2 = (None, st')" by simp
  from vpc_frame [OF v2] have here:
    "TrustOk (Pkg k) \<in> set (trace s2) \<and> ContentStart (Pkg k) \<in> set (trace s2)" by auto
  from verify_each_inv [OF rec] obtain new where "trace st' = trace s2 @ new" by blast
  with here have k: "TrustOk (Pkg k) \<in> set (trace st') \<and> ContentStart (Pkg k) \<in> set (trace st')"
    by simp
  show ?case
  proof (cases "m = k")
    case True
    with k show ?thesis by simp
  next
    case False
    with Cons.prems(2) have "m \<in> set ms" by simp
    from Cons.IH [OF rec this] show ?thesis .
  qed
qed

text \<open>
  C3, as the code has it. When the catalogue resolves the request, the cache directory
  is there, the download succeeds and every downloaded package is valid (manifest well
  formed, all entries matching, signature accepted), both verifications succeed for every
  package: the loop of \<open>Install\<close> ends without error, having recorded a successful trust
  verification and a content verification for each package. \<open>Install\<close> then returns the
  error \<open>NYI\<close>: there is no commit stage to reach. (That a package assembled from its
  files, with one manifest line for each, is valid in this sense is shown further down.)
\<close>

theorem valid_packages_pass_verification:
  assumes "LoadAvailable ev root = Inr av" and "av pkgs = Inr ms"
    and "(if files st (Join ev [root, cache]) = None
          then os_MkdirAll ev (Join ev [root, cache]) st else (None, st)) = (None, s1)"
    and "files s1 (Join ev [root, cache]) = Some Dir"
    and "download ev (Join ev [root, cache]) ms s1 = (None, s2)"
    and "list_all (valid_pkg ev root (files s2)) ms"
  shows "fst (verify_each ev root ms s2) = None \<and>
         fst (Install ev root pkgs st) = Some NYI \<and>
         (\<forall>m\<in>set ms. TrustOk (Pkg m) \<in> set (trace (snd (Install ev root pkgs st))) \<and>
                      ContentStart (Pkg m) \<in> set (trace (snd (Install ev root pkgs st))))"
proof -
  obtain s3 where ve: "verify_each ev root ms s2 = (None, s3)"
    using verify_each_valid [OF assms(6)] by (cases "verify_each ev root ms s2") auto
  have run: "Install ev root pkgs st = (Some NYI, s3)"
    using assms(1-5) ve unfolding Install_def Let_def by simp
  from verify_each_None_trace [OF ve] run ve show ?thesis by simp
qed

theorem valid_packages_pass_verification_witness:
  "fst (Install ex_env ''r'' [''good''] ex_st) = Some NYI \<and>
   TrustOk ''good'' \<in> set (trace (snd (Install ex_env ''r'' [''good''] ex_st))) \<and>
   ContentStart ''good'' \<in> set (trace (snd (Install ex_env ''r'' [''good''] ex_st)))"
proof -
  let ?cd = "''r/var/cache/pm''"
  let ?ms = "[\<lparr>Pkg = ''good'', URL = ''http://repo/good''\<rparr>]"
  let ?s1 = "\<lparr>files = [?cd \<mapsto> Dir], handles = [], trace = []\<rparr>"
  let ?s2 = "snd (download ex_env ?cd ?ms ?s1)"
  have cd: "Join ex_env [''r'', cache] = ?cd" by (simp add: example_defs cache_def)
  have h1: "LoadAvailable ex_env ''r'' = Inr (\<lambda>names.
        Inr (map (\<lambda>n. \<lparr>Pkg = n, URL = ''http://repo/'' @ n\<rparr>) names))"
    by (simp add: ex_env_def)
  have h2: "(\<lambda>names. Inr (map (\<lambda>n. \<lparr>Pkg = n, URL = ''http://repo/'' @ n\<rparr>) names)
               :: error + meta list) [''good''] = Inr ?ms" by simp
  have h3: "(if files ex_st (Join ex_env [''r'', cache]) = None
          then os_MkdirAll ex_env (Join ex_env [''r'', cache]) ex_st else (None, ex_st)) = (None, ?s1)"
    unfolding cd by (simp add: ex_st_def os_MkdirAll_def ex_env_def)
  have h4: "files ?s1 (Join ex_env [''r'', cache]) = Some Dir" unfolding cd by simp
  have "fst (download ex_env ?cd ?ms ?s1) = None"
    by (simp add: model_defs example_defs)
  then have h5: "download ex_env (Join ex_env [''r'', cache]) ?ms ?s1 = (None, ?s2)"
    unfolding cd by (simp add: prod_eq_iff)
  have h6: "list_all (valid_pkg ex_env ''r'' (files ?s2)) ?ms"
    by (simp add: valid_pkg_def passes_def is_content_def model_defs example_defs)
  from valid_packages_pass_verification [OF h1 h2 h3 h4 h5 h6] show ?thesis by simp
qed

text \<open>
  C3 fails as stated: the package \<open>good\<close> is valid in the cache after the download, and
  \<open>Install\<close> ends with an error all the same.
\<close>

theorem valid_packages_pass_verification_counterexample:
  "list_all (valid_pkg ex_env ''r'' (files (snd (Install ex_env ''r'' [''good''] ex_st))))
     [\<lparr>Pkg = ''good'', URL = ''http://repo/good''\<rparr>] \<and>
   fst (Install ex_env ''r'' [''good''] ex_st) = Some NYI"
  by (simp add: valid_pkg_def passes_def is_content_def model_defs example_defs)

section \<open>Scanning and parsing the manifest\<close>

lemma manifest_lines_ok:
  "list_all two_fields ts \<Longrightarrow>
     manifest_lines ts cs = Inr (foldl (\<lambda>c t. c(line_path t \<mapsto> line_digest t)) cs ts)"
  by (induction ts arbitrary: cs)
     (simp_all add: two_fields_def line_path_def line_digest_def Let_def)

lemma manifest_lines_fail:
  "\<not> list_all two_fields ts \<Longrightarrow> \<exists>n. n \<noteq> 2 \<and> manifest_lines ts cs = Inl (ManifestFormat n)"
  by (induction ts arbitrary: cs) (auto simp: two_fields_def Let_def)

lemma manifest_lines_Inr_iff:
  "(\<exists>cs'. manifest_lines ts cs = Inr cs') = list_all two_fields ts"
proof (cases "list_all two_fields ts")
  case True
  with manifest_lines_ok [of ts cs] show ?thesis by simp
next
  case False
  with manifest_lines_fail [of ts cs] show ?thesis by auto
qed

lemma foldl_upd_other:
  "p \<notin> set (map line_path post) \<Longrightarrow>
     foldl (\<lambda>c t. c(line_path t \<mapsto> line_digest t)) cs post p = cs p"
  by (induction post arbitrary: cs) auto

lemma foldl_upd_last:
  "line_path t \<notin> set (map line_path post) \<Longrightarrow>
     foldl (\<lambda>c t. c(line_path t \<mapsto> line_digest t)) cs (pre @ t # post) (line_path t)
       = Some (line_digest t)"
  by (simp add: foldl_upd_other)

lemma ScanLines_Nil: "ScanLines [] = ([], None)"
  by (simp add: ScanLines.simps)

text \<open>The newline that ends the last line is optional: with or without it the scanner
  delivers the same lines.\<close>

lemma ScanLines_final_newline:
  "d \<noteq> [] \<Longrightarrow> last d \<noteq> CHR 0x0A \<Longrightarrow> ScanLines (d @ [CHR 0x0A]) = ScanLines d"
proof (induction d rule: ScanLines.induct)
  case (1 d)
  let ?P = "\<lambda>c. c \<noteq> CHR 0x0A"
  show ?case
  proof (cases "CHR 0x0A \<in> set d")
    case False
    then have all: "\<forall>c\<in>set d. ?P c" by auto
    then have tw: "takeWhile ?P d = d" "dropWhile ?P d = []" by simp_all
    from all have tw': "takeWhile ?P (d @ [CHR 0x0A]) = d" "dropWhile ?P (d @ [CHR 0x0A]) = [CHR 0x0A]"
      by (simp_all add: takeWhile_append2 dropWhile_append2)
    show ?thesis
      by (subst ScanLines.simps [of "d @ [CHR 0x0A]"], subst ScanLines.simps [of d])
         (simp add: tw tw' Let_def ScanLines_Nil "1.prems")
  next
    case True
    let ?line = "takeWhile ?P d" and ?rest = "dropWhile ?P d"
    from True have ex: "\<exists>c\<in>set d. \<not> ?P c" by auto
    from True have rest: "?rest \<noteq> []" by (simp add: dropWhile_eq_Nil_conv)
    then have hd: "hd ?rest = CHR 0x0A" using hd_dropWhile [of ?P d] by simp
    from True have tw': "takeWhile ?P (d @ [CHR 0x0A]) = ?line"
      "dropWhile ?P (d @ [CHR 0x0A]) = ?rest @ [CHR 0x0A]"
      by (simp_all add: takeWhile_append1 dropWhile_append1)
    have split: "d = ?line @ CHR 0x0A # tl ?rest"
      using rest hd takeWhile_dropWhile_id [of ?P d] by (cases ?rest) auto
    have tl_ne: "tl ?rest \<noteq> []"
    proof
      assume "tl ?rest = []"
      with split have "d = ?line @ [CHR 0x0A]" by simp
      then have "last d = CHR 0x0A" by (metis last_snoc)
      with "1.prems" show False by simp
    qed
    have last_tl: "last (tl ?rest) = last d"
      using tl_ne by (subst (2) split) simp
    show ?thesis
    proof (cases "MaxScanTokenSize \<le> length ?line")
      case long: True
      then show ?thesis
        by (subst ScanLines.simps [of "d @ [CHR 0x0A]"], subst ScanLines.simps [of d])
           (simp add: tw' Let_def "1.prems" del: dropWhile_eq_Nil_conv)
    next
      case short: False
      have IH: "ScanLines (tl ?rest @ [CHR 0x0A]) = ScanLines (tl ?rest)"
        using "1.IH" [OF "1.prems"(1) refl refl short rest tl_ne] last_tl "1.prems"(2) by simp
      have tl_app: "tl (?rest @ [CHR 0x0A]) = tl ?rest @ [CHR 0x0A]" using rest by simp
      show ?thesis
        by (subst ScanLines.simps [of "d @ [CHR 0x0A]"], subst ScanLines.simps [of d])
           (simp add: tw' Let_def "1.prems" short rest tl_app IH del: dropWhile_eq_Nil_conv)
    qed
  qed
qed

lemma load_manifest_format_error:
  assumes "files st pn = Some pf"
    and "seek ''manifest.sha256'' (entries (tar_view pf)) (tail_err (tar_view pf)) = Inr man"
    and "\<not> list_all two_fields (fst (Scanner (e_data man, e_err man)))"
  shows "\<exists>n. n \<noteq> 2 \<and> fst (load_manifest ev pn st) = Inl (ManifestFormat n)"
proof -
  obtain lines s_err where sc: "Scanner (e_data man, e_err man) = (lines, s_err)"
    by (cases "Scanner (e_data man, e_err man)")
  with assms(3) have "\<not> list_all two_fields lines" by simp
  from manifest_lines_fail [OF this, of Map.empty] obtain n where
    "n \<noteq> 2" "manifest_lines lines Map.empty = Inl (ManifestFormat n)" by blast
  with assms(1,2) sc show ?thesis
    by (simp add: load_manifest_def getReadCloser_def os_Open_def ts_Read_def)
qed

lemma vpc_manifest_error:
  assumes "fst (load_manifest ev (Join ev [root, cache, Pkg m]) st) = Inl err"
  shows "fst (verifyPkgContents ev root m st) = Some err \<and>
         trace (snd (verifyPkgContents ev root m st)) = trace st @ [ContentStart (Pkg m)]"
proof -
  let ?pn = "Join ev [root, cache, Pkg m]"
  let ?s0 = "emit (ContentStart (Pkg m)) st"
  obtain c s2 where lm: "load_manifest ev ?pn ?s0 = (c, s2)"
    by (cases "load_manifest ev ?pn ?s0")
  have c: "c = Inl err"
    using load_manifest_result [of st ?s0 ev ?pn] lm assms by simp
  from load_manifest_frame [OF lm] have "trace s2 = trace st @ [ContentStart (Pkg m)]" by simp
  with lm c show ?thesis by (simp add: verifyPkgContents_def Let_def)
qed

text \<open>
  C5, as the code has it. Two lines of a manifest with the same path are not an error:
  when the manifest reader is there, the scan ends without error, the reader closes and
  every line has two fields, the parse succeeds, and a path that occurs on several lines
  is mapped to the digest of the last of them.
\<close>

theorem duplicate_paths_last_wins:
  assumes "files st pn = Some pf"
    and "seek ''manifest.sha256'' (entries (tar_view pf)) (tail_err (tar_view pf)) = Inr man"
    and "Scanner (e_data man, e_err man) = (pre @ t1 # mid @ t2 # post, None)"
    and "Close_err ev pn = None"
    and "list_all two_fields (pre @ t1 # mid @ t2 # post)"
    and "line_path t1 = line_path t2"
    and "line_path t2 \<notin> set (map line_path post)"
  shows "\<exists>cs. fst (load_manifest ev pn st) = Inr cs \<and> cs (line_path t2) = Some (line_digest t2)"
proof -
  let ?f = "\<lambda>c t. c(line_path t \<mapsto> line_digest t)"
  let ?ts = "pre @ t1 # mid @ t2 # post"
  have "manifest_lines ?ts Map.empty = Inr (foldl ?f Map.empty ?ts)"
    using assms(5) by (rule manifest_lines_ok)
  from load_manifest_Inr [OF assms(1,2,3) this assms(4)]
  have "fst (load_manifest ev pn st) = Inr (foldl ?f Map.empty ?ts)" .
  moreover have "foldl ?f Map.empty ((pre @ t1 # mid) @ t2 # post) (line_path t2)
      = Some (line_digest t2)"
    using assms(7) by (rule foldl_upd_last)
  ultimately show ?thesis by simp
qed

lemma ex_dup_scan:
  "Scanner (dup_manifest, None) =
     ([] @ (''sha:old'' @ [CHR 0x09] @ ''bin/foo'') # [] @ (''sha:hello'' @ [CHR 0x09] @ ''bin/foo'') # [],
      None)"
  by (simp add: model_defs example_defs)

theorem duplicate_paths_last_wins_witness:
  "line_path (''sha:old'' @ [CHR 0x09] @ ''bin/foo'') = line_path (''sha:hello'' @ [CHR 0x09] @ ''bin/foo'') \<and>
   (\<exists>cs. fst (load_manifest ex_env ''r/var/cache/pm/pkg'' (cached dup_tar)) = Inr cs \<and>
         cs ''bin/foo'' = Some ''sha:hello'')"
proof -
  let ?t1 = "''sha:old'' @ [CHR 0x09] @ ''bin/foo''"
  let ?t2 = "''sha:hello'' @ [CHR 0x09] @ ''bin/foo''"
  let ?man = "ex_file ''manifest.sha256'' dup_manifest"
  have h1: "files (cached dup_tar) ''r/var/cache/pm/pkg'' = Some (File dup_tar)"
    by (simp add: cached_def)
  have h2: "seek ''manifest.sha256'' (entries (tar_view (File dup_tar)))
      (tail_err (tar_view (File dup_tar))) = Inr ?man"
    by (simp add: tar_view_def dup_tar_def ex_file_def)
  have h3: "Scanner (e_data ?man, e_err ?man) = ([] @ ?t1 # [] @ ?t2 # [], None)"
    using ex_dup_scan by (simp add: ex_file_def)
  have h4: "Close_err ex_env ''r/var/cache/pm/pkg'' = None" by (simp add: ex_env_def)
  have h5: "list_all two_fields ([] @ ?t1 # [] @ ?t2 # [])" by (simp add: two_fields_def)
  have h6: "line_path ?t1 = line_path ?t2" by (simp add: line_path_def)
  have h7: "line_path ?t2 \<notin> set (map line_path [])" by simp
  have p: "line_path ?t2 = ''bin/foo''" "line_digest ?t2 = ''sha:hello''"
    by (simp_all add: line_path_def line_digest_def)
  from duplicate_paths_last_wins [OF h1 h2 h3 h4 h5 h6 h7] h6
  show ?thesis unfolding p by blast
qed

text \<open>
  C5 fails as stated: the two lines of this manifest have the same path, and the parse
  succeeds, keeping the second digest; content verification accepts the archive.
\<close>

theorem duplicate_paths_counterexample:
  "map line_path (fst (Scanner (dup_manifest, None))) = [''bin/foo'', ''bin/foo''] \<and>
   fst (load_manifest ex_env ''r/var/cache/pm/pkg'' (cached dup_tar))
     = Inr [''bin/foo'' \<mapsto> ''sha:hello''] \<and>
   fst (verifyPkgContents ex_env ''r'' ex_pkg (cached dup_tar)) = None"
  by (simp add: line_path_def model_defs example_defs)

text \<open>
  C8, as the code has it. The newline that ends the last line is optional: with or
  without it the scanner delivers the same lines, and no blank one. A blank line has one
  field. With the manifest reader at hand: if a scanned line, blank or not, does not have
  exactly two fields, the parse fails with the format error; if all lines have two
  fields, the scan ends without error and the reader closes, the parse returns the
  mapping built from all the lines. A manifest whose parse failed is not used:
  \<open>verifyPkgContents\<close> returns the error of the parse and computes no digest.
\<close>

theorem manifest_parse_all_or_nothing:
  assumes "files st (Join ev [root, cache, Pkg m]) = Some pf"
    and "seek ''manifest.sha256'' (entries (tar_view pf)) (tail_err (tar_view pf)) = Inr man"
    and "Scanner (e_data man, e_err man) = (lines, s_err)"
  shows "(d \<noteq> [] \<and> last d \<noteq> CHR 0x0A \<longrightarrow> ScanLines (d @ [CHR 0x0A]) = ScanLines d) \<and>
     \<not> two_fields [] \<and>
     (\<not> list_all two_fields lines \<longrightarrow>
        (\<exists>n. n \<noteq> 2 \<and>
           fst (load_manifest ev (Join ev [root, cache, Pkg m]) st) = Inl (ManifestFormat n))) \<and>
     (list_all two_fields lines \<and> s_err = None \<and> Close_err ev (Join ev [root, cache, Pkg m]) = None \<longrightarrow>
        fst (load_manifest ev (Join ev [root, cache, Pkg m]) st) =
          Inr (foldl (\<lambda>c t. c(line_path t \<mapsto> line_digest t)) Map.empty lines)) \<and>
     (\<forall>err. fst (load_manifest ev (Join ev [root, cache, Pkg m]) st) = Inl err \<longrightarrow>
        fst (verifyPkgContents ev root m st) = Some err \<and>
        trace (snd (verifyPkgContents ev root m st)) = trace st @ [ContentStart (Pkg m)])"
proof -
  let ?pn = "Join ev [root, cache, Pkg m]"
  have a: "d \<noteq> [] \<and> last d \<noteq> CHR 0x0A \<longrightarrow> ScanLines (d @ [CHR 0x0A]) = ScanLines d"
    by (simp add: ScanLines_final_newline)
  have b: "\<not> two_fields []" by (simp add: two_fields_def)
  have c: "\<exists>n. n \<noteq> 2 \<and> fst (load_manifest ev ?pn st) = Inl (ManifestFormat n)"
    if "\<not> list_all two_fields lines"
    using load_manifest_format_error [OF assms(1,2)] that assms(3) by simp
  have d: "fst (load_manifest ev ?pn st) =
          Inr (foldl (\<lambda>c t. c(line_path t \<mapsto> line_digest t)) Map.empty lines)"
    if "list_all two_fields lines" "s_err = None" "Close_err ev ?pn = None"
    using load_manifest_Inr [OF assms(1,2) _ manifest_lines_ok [OF that(1)] that(3)]
      assms(3) that(2) by simp
  have e: "\<forall>err. fst (load_manifest ev ?pn st) = Inl err \<longrightarrow>
        fst (verifyPkgContents ev root m st) = Some err \<and>
        trace (snd (verifyPkgContents ev root m st)) = trace st @ [ContentStart (Pkg m)]"
    using vpc_manifest_error by blast
  from a b c d e show ?thesis by blast
qed

lemma ex_blank_scan:
  "Scanner (ex_manifest @ [CHR 0x0A], None) = ([''sha:hello'' @ [CHR 0x09] @ ''bin/foo'', []], None)"
  by (simp add: model_defs example_defs)

theorem manifest_parse_all_or_nothing_witness:
  "ScanLines ((''sha:hello'' @ [CHR 0x09] @ ''bin/foo'') @ [CHR 0x0A])
     = ScanLines (''sha:hello'' @ [CHR 0x09] @ ''bin/foo'') \<and>
   \<not> list_all two_fields [''sha:hello'' @ [CHR 0x09] @ ''bin/foo'', []] \<and>
   (\<exists>n. n \<noteq> 2 \<and> fst (verifyPkgContents ex_env ''r'' ex_pkg (cached blank_tar))
            = Some (ManifestFormat n)) \<and>
   trace (snd (verifyPkgContents ex_env ''r'' ex_pkg (cached blank_tar))) = [ContentStart ''pkg'']"
proof -
  let ?d = "''sha:hello'' @ [CHR 0x09] @ ''bin/foo''"
  let ?man = "ex_file ''manifest.sha256'' (ex_manifest @ [CHR 0x0A])"
  have pn: "Join ex_env [''r'', cache, Pkg ex_pkg] = ''r/var/cache/pm/pkg''"
    by (simp add: example_defs cache_def)
  have h1: "files (cached blank_tar) (Join ex_env [''r'', cache, Pkg ex_pkg]) = Some (File blank_tar)"
    unfolding pn by (simp add: cached_def)
  have h2: "seek ''manifest.sha256'' (entries (tar_view (File blank_tar)))
      (tail_err (tar_view (File blank_tar))) = Inr ?man"
    by (simp add: tar_view_def blank_tar_def ex_file_def)
  have h3: "Scanner (e_data ?man, e_err ?man) = ([?d, []], None)"
    using ex_blank_scan by (simp add: ex_file_def)
  note main = manifest_parse_all_or_nothing [OF h1 h2 h3, where d = ?d]
  have d: "?d \<noteq> [] \<and> last ?d \<noteq> CHR 0x0A" by simp
  have bad: "\<not> list_all two_fields [?d, []]" by (simp add: two_fields_def)
  from main d have a: "ScanLines (?d @ [CHR 0x0A]) = ScanLines ?d" by blast
  from main bad obtain n where n: "n \<noteq> 2"
    "fst (load_manifest ex_env (Join ex_env [''r'', cache, Pkg ex_pkg]) (cached blank_tar))
       = Inl (ManifestFormat n)" by blast
  with main have
    "fst (verifyPkgContents ex_env ''r'' ex_pkg (cached blank_tar)) = Some (ManifestFormat n)"
    "trace (snd (verifyPkgContents ex_env ''r'' ex_pkg (cached blank_tar)))
       = trace (cached blank_tar) @ [ContentStart (Pkg ex_pkg)]" by blast+
  moreover have "trace (cached blank_tar) = []" "Pkg ex_pkg = ''pkg''"
    by (simp_all add: cached_def ex_pkg_def)
  ultimately show ?thesis using a bad n(1) by auto
qed

text \<open>
  C8 fails as stated: a blank trailing line is not tolerated. The manifest of this archive
  is the valid one-line manifest followed by a blank line; the scanner delivers the blank
  line, it has one field, and verification fails with the format error, while the same
  archive without the blank line is accepted.
\<close>

theorem blank_trailing_line_counterexample:
  "fst (Scanner (ex_manifest @ [CHR 0x0A], None)) = [''sha:hello'' @ [CHR 0x09] @ ''bin/foo'', []] \<and>
   fst (verifyPkgContents ex_env ''r'' ex_pkg (cached blank_tar)) = Some (ManifestFormat 1) \<and>
   fst (verifyPkgContents ex_env ''r'' ex_pkg (cached good_tar)) = None"
  by (simp add: model_defs example_defs)

section \<open>Packages assembled from their files\<close>

lemma Split_no_sep: "sep \<notin> set s \<Longrightarrow> Split s sep = [s]"
  by (induction s) auto

lemma Split_at_sep: "sep \<notin> set a \<Longrightarrow> Split (a @ sep # b) sep = a # Split b sep"
  by (induction a) auto

lemma manifest_line_fields:
  "fits_line ev f \<Longrightarrow> Split (manifest_line ev f) (CHR 0x09) = [sha256_hex ev (snd f), fst f]"
  by (simp add: manifest_line_def fits_line_def Split_at_sep Split_no_sep)

lemma manifest_line_two_fields:
  "fits_line ev f \<Longrightarrow> two_fields (manifest_line ev f) \<and>
     line_path (manifest_line ev f) = fst f \<and>
     line_digest (manifest_line ev f) = sha256_hex ev (snd f)"
  by (simp add: two_fields_def line_path_def line_digest_def manifest_line_fields)

lemma manifest_line_scans:
  assumes "fits_line ev f"
  shows "CHR 0x0A \<notin> set (manifest_line ev f)" and "dropCR (manifest_line ev f) = manifest_line ev f"
    and "\<not> MaxScanTokenSize \<le> length (manifest_line ev f)"
proof -
  show "CHR 0x0A \<notin> set (manifest_line ev f)"
    using assms by (simp add: manifest_line_def fits_line_def)
  have "last (manifest_line ev f) \<noteq> CHR 0x0D"
    using assms by (cases "fst f = []") (simp_all add: manifest_line_def fits_line_def)
  then show "dropCR (manifest_line ev f) = manifest_line ev f" by (simp add: dropCR_def)
  show "\<not> MaxScanTokenSize \<le> length (manifest_line ev f)"
    using assms by (simp add: fits_line_def)
qed

lemma ScanLines_serialize:
  "list_all (fits_line ev) fs \<Longrightarrow> ScanLines (serialize ev fs) = (map (manifest_line ev) fs, None)"
proof (induction fs)
  case Nil
  then show ?case by (simp add: serialize_def ScanLines_Nil)
next
  case (Cons f fs)
  let ?l = "manifest_line ev f"
  from Cons.prems have f: "fits_line ev f" and rest: "list_all (fits_line ev) fs" by simp_all
  note l = manifest_line_scans [OF f]
  have ser: "serialize ev (f # fs) = ?l @ CHR 0x0A # serialize ev fs"
    by (simp add: serialize_def)
  from l(1) have all: "\<forall>c\<in>set ?l. c \<noteq> CHR 0x0A" by auto
  have tw: "takeWhile (\<lambda>c. c \<noteq> CHR 0x0A) (?l @ CHR 0x0A # serialize ev fs) = ?l"
    using all by (simp add: takeWhile_append2)
  have dw: "dropWhile (\<lambda>c. c \<noteq> CHR 0x0A) (?l @ CHR 0x0A # serialize ev fs)
      = CHR 0x0A # serialize ev fs"
    using all by (simp add: dropWhile_append2)
  show ?case
    unfolding ser
    by (subst ScanLines.simps) (simp add: tw dw Let_def l Cons.IH [OF rest])
qed

lemma foldl_manifest_distinct:
  assumes "list_all (fits_line ev) fs" and "distinct (map fst fs)" and "f \<in> set fs"
  shows "foldl (\<lambda>c t. c(line_path t \<mapsto> line_digest t)) cs (map (manifest_line ev) fs) (fst f)
           = Some (sha256_hex ev (snd f))"
proof -
  from assms(3) obtain pre post where fs: "fs = pre @ f # post"
    by (auto simp: in_set_conv_decomp)
  let ?t = "manifest_line ev f"
  have fit: "fits_line ev f" and post: "list_all (fits_line ev) post"
    using assms(1) fs by simp_all
  have paths: "map line_path (map (manifest_line ev) post) = map fst post"
    using post by (induction post) (simp_all add: manifest_line_two_fields)
  have "line_path ?t \<notin> set (map line_path (map (manifest_line ev) post))"
    using assms(2) fs fit unfolding paths by (simp add: manifest_line_two_fields)
  from foldl_upd_last [OF this, of cs "map (manifest_line ev) pre"] fit
  show ?thesis by (simp add: fs manifest_line_two_fields)
qed

text \<open>
  A package assembled from files with distinct paths that fit the line format, whose
  signature the keyring accepts over the very bytes of the manifest, and whose archive
  closes without error, is valid.
\<close>

lemma assembled_pkg_valid:
  assumes "F (Join ev [root, cache, Pkg m]) = Some (File (assemble ev fs sg))"
    and "list_all (fits_line ev) fs" and "distinct (map fst fs)"
    and "keyring_Verify ev root (serialize ev fs, None) (sg, None) = None"
    and "Close_err ev (Join ev [root, cache, Pkg m]) = None"
  shows "valid_pkg ev root F m"
proof -
  let ?lines = "map (manifest_line ev) fs"
  let ?cs = "foldl (\<lambda>c t. c(line_path t \<mapsto> line_digest t)) Map.empty ?lines"
  have sc: "Scanner (serialize ev fs, None) = (?lines, None)"
    by (simp add: Scanner_def ScanLines_serialize [OF assms(2)])
  have "list_all two_fields ?lines"
    using assms(2) by (induction fs) (simp_all add: manifest_line_two_fields)
  then have parse: "manifest_lines ?lines Map.empty = Inr ?cs" by (rule manifest_lines_ok)
  have files: "\<forall>f\<in>set fs. passes ev ?cs
      \<lparr>hdr_Name = fst f, hdr_IsDir = False, e_data = snd f, e_err = None\<rparr>"
    using foldl_manifest_distinct [OF assms(2,3)] by (simp add: passes_def)
  then have "list_all (passes ev ?cs)
      (map (\<lambda>f. \<lparr>hdr_Name = fst f, hdr_IsDir = False, e_data = snd f, e_err = None\<rparr>) fs)"
    by (simp add: list_all_iff)
  then have all: "list_all (passes ev ?cs) (entries (assemble ev fs sg))"
    by (simp add: assemble_def passes_def is_content_def)
  let ?man = "\<lparr>hdr_Name = ''manifest.sha256'', hdr_IsDir = False,
                e_data = serialize ev fs, e_err = None\<rparr>"
  let ?sig = "\<lparr>hdr_Name = ''manifest.sha256.asc'', hdr_IsDir = False, e_data = sg, e_err = None\<rparr>"
  have tv: "tar_view (File (assemble ev fs sg)) = assemble ev fs sg" by (simp add: tar_view_def)
  have tl: "tail_err (assemble ev fs sg) = None" by (simp add: assemble_def)
  have man: "seek ''manifest.sha256'' (entries (assemble ev fs sg)) None = Inr ?man"
    by (simp add: assemble_def)
  have sig: "seek ''manifest.sha256.asc'' (entries (assemble ev fs sg)) None = Inr ?sig"
    by (simp add: assemble_def)
  show ?thesis
    unfolding valid_pkg_def Let_def assms(1)
    using tl man sig assms(4,5) sc parse all by (simp add: tv)
qed

section \<open>Fetching\<close>

text \<open>The failures the fetch loop does check stop it at once: a failed request, a failed
  creation of the cache file, a failed copy, a failed close of the response body.\<close>

lemma download_stops_on_http_error:
  "http_Get ev (URL m) = Inl err \<Longrightarrow>
     download ev cdir (m # ms) st = (Some (Wrap err ''http get''), emit (HttpGet (URL m)) st)"
  by simp

lemma download_stops_on_round_failure:
  assumes "http_Get ev (URL m) = Inr resp"
    and "fst (os_Create ev (Join ev [cdir, Pkg m]) (emit (HttpGet (URL m)) st)) \<noteq> None
         \<or> io_Copy ev (Join ev [cdir, Pkg m]) resp \<noteq> Copied
         \<or> Body_Close_err resp \<noteq> None"
  shows "fst (download ev cdir (m # ms) st) \<noteq> None \<and>
         trace (snd (download ev cdir (m # ms) st)) = trace st @ [HttpGet (URL m)]"
proof -
  obtain r st' where run: "download ev cdir (m # ms) st = (r, st')"
    by (cases "download ev cdir (m # ms) st")
  from download_step [OF run] show ?thesis
  proof (elim disjE conjE exE)
    assume "r \<noteq> None" "trace st' = trace st @ [HttpGet (URL m)]"
    with run show ?thesis by simp
  next
    fix s2
    assume "download ev cdir ms s2 = (r, st')"
    have "r \<noteq> None \<and> trace st' = trace st @ [HttpGet (URL m)]"
      using run assms
      by (auto simp: Let_def os_Create_def emit_def split: option.splits copied.splits if_splits)
    with run show ?thesis by simp
  qed
qed

text \<open>Without the cache directory the creation of the cache file fails, and the loop
  stops there.\<close>

lemma download_needs_cache_dir:
  "fst (download ex_env ''r/var/cache/pm''
          [\<lparr>Pkg = ''gone'', URL = ''http://repo/gone''\<rparr>,
           \<lparr>Pkg = ''good'', URL = ''http://repo/good''\<rparr>] ex_st)
     = Some (Wrap (LibErr ''open: no such file or directory'') ''creating'')"
  by (simp add: model_defs example_defs)

text \<open>
  C4. The status of the response is never looked at. The cache directory is there; the
  server answers the request for \<open>gone\<close> with status 404 and a body that is no archive:
  \<open>download\<close> writes the body to the cache, goes on to fetch the next package and returns
  nil. \<open>Install\<close>, run from the empty state with the same request, gets past the download
  in the same way and fails later, in trust verification, on the cached body.
\<close>

theorem download_ignores_http_status:
  "files ex_cache_st ''r/var/cache/pm'' = Some Dir \<and>
   map_sum id StatusCode (http_Get ex_env ''http://repo/gone'') = Inr 404 \<and>
   fst (download ex_env ''r/var/cache/pm''
          [\<lparr>Pkg = ''gone'', URL = ''http://repo/gone''\<rparr>,
           \<lparr>Pkg = ''good'', URL = ''http://repo/good''\<rparr>] ex_cache_st) = None \<and>
   trace (snd (download ex_env ''r/var/cache/pm''
          [\<lparr>Pkg = ''gone'', URL = ''http://repo/gone''\<rparr>,
           \<lparr>Pkg = ''good'', URL = ''http://repo/good''\<rparr>] ex_cache_st))
     = [HttpGet ''http://repo/gone'', HttpGet ''http://repo/good''] \<and>
   files (snd (download ex_env ''r/var/cache/pm''
          [\<lparr>Pkg = ''gone'', URL = ''http://repo/gone''\<rparr>,
           \<lparr>Pkg = ''good'', URL = ''http://repo/good''\<rparr>] ex_cache_st)) ''r/var/cache/pm/gone''
     = Some (File gone_body) \<and>
   fst (Install ex_env ''r'' [''gone'', ''good''] ex_st)
     = Some (Wrap (Wrap (Wrap (LibErr ''archive/tar: invalid tar header'') ''tar traversal'')
                     ''getting manifest reader'') ''verifying pkg integrity'') \<and>
   trace (snd (Install ex_env ''r'' [''gone'', ''good''] ex_st))
     = [HttpGet ''http://repo/gone'', HttpGet ''http://repo/good'', TrustFailed ''gone'']"
  by (simp add: model_defs example_defs)

section \<open>Release of the archive readers\<close>

text \<open>
  C9. The readers are closed on the success path only. When the keyring rejects the
  signature, \<open>verifyManifestIntegrity\<close> returns with both readers open; when the
  signature entry is not found, it returns with the manifest reader open and with the
  file that \<open>getReadCloser\<close> opened for the search open; \<open>getReadCloser\<close> itself leaves
  the file open when the entry is not found. On the success path both readers are closed.
\<close>

theorem readers_left_open_on_failure:
  "fst (verifyManifestIntegrity ex_env ''r'' ex_pkg (cached bad_tar))
     = Some (Wrap (LibErr ''signature does not verify'') ''verifying manifest'') \<and>
   handles (snd (verifyManifestIntegrity ex_env ''r'' ex_pkg (cached bad_tar)))
     = [''r/var/cache/pm/pkg'', ''r/var/cache/pm/pkg''] \<and>
   fst (verifyManifestIntegrity ex_env ''r'' ex_pkg (cached nosig_tar))
     = Some (Wrap (NotFound ''manifest.sha256.asc'') ''getting manifest reader'') \<and>
   handles (snd (verifyManifestIntegrity ex_env ''r'' ex_pkg (cached nosig_tar)))
     = [''r/var/cache/pm/pkg'', ''r/var/cache/pm/pkg''] \<and>
   fst (getReadCloser ''r/var/cache/pm/pkg'' ''manifest.sha256.asc'' (cached nosig_tar))
     = Inl (NotFound ''manifest.sha256.asc'') \<and>
   handles (snd (getReadCloser ''r/var/cache/pm/pkg'' ''manifest.sha256.asc'' (cached nosig_tar)))
     = [''r/var/cache/pm/pkg''] \<and>
   fst (verifyManifestIntegrity ex_env ''r'' ex_pkg (cached good_tar)) = None \<and>
   handles (snd (verifyManifestIntegrity ex_env ''r'' ex_pkg (cached good_tar))) = []"
  by (simp add: model_defs example_defs)

end
